theory Spec2Isabelle
  imports Complex_Main "HOL-Library.Char_ord" "HOL-Library.List_Lexorder"
begin

section \<open>CISystem front end: permission resolver, calendar helpers, classifier, profit reports\<close>

text \<open>
  The TypeScript sources modelled here are
  \<^verbatim>\<open>shared/services/permission.service.ts\<close>, \<^verbatim>\<open>shared/utils/date.utils.ts\<close>,
  \<^verbatim>\<open>features/inventory/inventory.page.ts\<close>, \<^verbatim>\<open>features/dashboard/dashboard.page.ts\<close>,
  the profit dashboard page and the profit management page.

  Conventions of the embedding.
  \<^item> A JavaScript string is a \<open>string\<close>; the strings that matter (module names, ISO dates,
    decimal numerals) are ASCII.
  \<^item> A signal is the value it holds; a class is a record of its signals, and a method is a
    function of that record.
  \<^item> \<open>x ?? d\<close> and \<open>x?.f\<close> on a possibly absent value are a \<open>case\<close> on an \<open>option\<close>.
\<close>

subsection \<open>Strings and numbers\<close>

text \<open>
  \<open>String.prototype.toUpperCase\<close> on ASCII text: the letters \<open>a\<close> to \<open>z\<close> (codes 97 to 122)
  move down by 32, every other character stays.
\<close>

definition toUpperCase_char :: "char \<Rightarrow> char" where
  "toUpperCase_char c =
     (let n = (of_char c :: nat) in if 97 \<le> n \<and> n \<le> 122 then char_of (n - 32) else c)"

definition toUpperCase :: "string \<Rightarrow> string" where
  "toUpperCase s = map toUpperCase_char s"

text \<open>
  \<open>String.prototype.trim\<close>: white space is dropped at both ends. On one-byte characters
  the white space of ECMAScript is tab, line feed, vertical tab, form feed, carriage
  return, space and the no-break space.
\<close>

definition is_space :: "char \<Rightarrow> bool" where
  "is_space c = ((of_char c :: nat) \<in> {9, 10, 11, 12, 13, 32, 160})"

definition trim :: "string \<Rightarrow> string" where
  "trim s = rev (dropWhile is_space (rev (dropWhile is_space s)))"

text \<open>
  A JavaScript number that holds a calendar quantity is an \<open>int option\<close>: \<open>None\<close> is NaN.
  \<open>String(n)\<close> and the template \<open>${n}\<close> print an integer in decimal, with a minus sign
  when it is negative, and print NaN as \<open>NaN\<close>.
\<close>

type_synonym num = "int option"

definition digit_char :: "nat \<Rightarrow> char" where
  "digit_char n = char_of (48 + n)"

fun string_of_nat :: "nat \<Rightarrow> string" where
  "string_of_nat n =
     (if n < 10 then [digit_char n]
      else string_of_nat (n div 10) @ [digit_char (n mod 10)])"

declare string_of_nat.simps [simp del]

definition String_int :: "int \<Rightarrow> string" where
  "String_int i =
     (if i < 0 then CHR ''-'' # string_of_nat (nat (- i)) else string_of_nat (nat i))"

definition String_num :: "num \<Rightarrow> string" where
  "String_num v = (case v of None \<Rightarrow> ''NaN'' | Some i \<Rightarrow> String_int i)"

text \<open>\<open>s.padStart(2, '0')\<close>\<close>

definition padStart2 :: "string \<Rightarrow> string" where
  "padStart2 s = replicate (2 - length s) CHR ''0'' @ s"

text \<open>Arithmetic and comparison on numbers that may be NaN.\<close>

definition num_add :: "num \<Rightarrow> num \<Rightarrow> num" where
  "num_add a b = (case (a, b) of (Some x, Some y) \<Rightarrow> Some (x + y) | _ \<Rightarrow> None)"

definition num_less :: "num \<Rightarrow> num \<Rightarrow> bool" where
  "num_less a b = (case (a, b) of (Some x, Some y) \<Rightarrow> x < y | _ \<Rightarrow> False)"

definition num_le :: "num \<Rightarrow> num \<Rightarrow> bool" where
  "num_le a b = (case (a, b) of (Some x, Some y) \<Rightarrow> x \<le> y | _ \<Rightarrow> False)"

text \<open>
  Reading decimal digits. \<open>Number(s)\<close> is modelled on the strings \<open>isoDateParts\<close> hands
  to it, the pieces of a date label between hyphens: the empty string is 0, a string
  of decimal digits is its value, and anything else is NaN.
\<close>

definition is_digit :: "char \<Rightarrow> bool" where
  "is_digit c = (48 \<le> (of_char c :: nat) \<and> (of_char c :: nat) \<le> 57)"

definition digit_val :: "char \<Rightarrow> int" where
  "digit_val c = int (of_char c) - 48"

definition digits_val :: "string \<Rightarrow> int" where
  "digits_val s = foldl (\<lambda>a c. 10 * a + digit_val c) 0 s"

definition Number_str :: "string \<Rightarrow> num" where
  "Number_str s = (if list_all is_digit s then Some (digits_val s) else None)"

text \<open>\<open>s.split(c)\<close> for a one-character separator.\<close>

fun split_on :: "char \<Rightarrow> string \<Rightarrow> string list" where
  "split_on c [] = [[]]"
| "split_on c (x # xs) =
     (if x = c then [] # split_on c xs
      else (case split_on c xs of [] \<Rightarrow> [[x]] | w # ws \<Rightarrow> (x # w) # ws))"


subsection \<open>The calendar of ECMAScript Date\<close>

text \<open>
  \<open>Date\<close> is part of the language, not of the repository; it is modelled after the
  ECMAScript specification (section "Date Objects": \<open>Day\<close>, \<open>DaysInYear\<close>, \<open>DayFromYear\<close>,
  \<open>YearFromTime\<close>, \<open>MonthFromTime\<close>, \<open>DateFromTime\<close>, \<open>MakeDay\<close>, \<open>MakeDate\<close>, \<open>TimeClip\<close>).
  A time value is an integer number of milliseconds since 1 January 1970; a \<open>Date\<close>
  object is a time value or NaN. Division is the floor division of \<open>int\<close>.

  The model has one time zone, with offset zero and no daylight saving: local time and
  UTC coincide, so the local and the UTC accessors are the same functions.

  ECMAScript defines \<open>YearFromTime t\<close> as the largest year whose first instant is not
  after \<open>t\<close>. Here it is computed: the mean year of 146097/400 days gives a first guess,
  which is at most one year off (lemma \<open>YearFromTime_range\<close> below).
\<close>

definition msPerDay :: int where
  "msPerDay = 86400000"

definition Day :: "int \<Rightarrow> int" where
  "Day t = t div msPerDay"

definition TimeWithinDay :: "int \<Rightarrow> int" where
  "TimeWithinDay t = t mod msPerDay"

definition DaysInYear :: "int \<Rightarrow> int" where
  "DaysInYear y =
     (if y mod 4 \<noteq> 0 then 365
      else if y mod 100 \<noteq> 0 then 366
      else if y mod 400 \<noteq> 0 then 365
      else 366)"

definition DayFromYear :: "int \<Rightarrow> int" where
  "DayFromYear y =
     365 * (y - 1970) + (y - 1969) div 4 - (y - 1901) div 100 + (y - 1601) div 400"

definition TimeFromYear :: "int \<Rightarrow> int" where
  "TimeFromYear y = msPerDay * DayFromYear y"

definition YearFromTime :: "int \<Rightarrow> int" where
  "YearFromTime t =
     (let y0 = 1970 + (400 * Day t) div 146097
      in if t < TimeFromYear y0 then y0 - 1
         else if TimeFromYear (y0 + 1) \<le> t then y0 + 1
         else y0)"




text \<open>\<open>InLeapYear\<close>, \<open>DayWithinYear\<close> and the month and date tables of the specification.\<close>

definition InLeapYear :: "int \<Rightarrow> int" where
  "InLeapYear t = (if DaysInYear (YearFromTime t) = 366 then 1 else 0)"

definition DayWithinYear :: "int \<Rightarrow> int" where
  "DayWithinYear t = Day t - DayFromYear (YearFromTime t)"

definition MonthFromTime :: "int \<Rightarrow> int" where
  "MonthFromTime t =
     (let d = DayWithinYear t; l = InLeapYear t
      in if d < 31 then 0
         else if d < 59 + l then 1
         else if d < 90 + l then 2
         else if d < 120 + l then 3
         else if d < 151 + l then 4
         else if d < 181 + l then 5
         else if d < 212 + l then 6
         else if d < 243 + l then 7
         else if d < 273 + l then 8
         else if d < 304 + l then 9
         else if d < 334 + l then 10
         else 11)"

definition DateFromTime :: "int \<Rightarrow> int" where
  "DateFromTime t =
     (let d = DayWithinYear t; l = InLeapYear t; m = MonthFromTime t
      in if m = 0 then d + 1
         else if m = 1 then d - 30
         else if m = 2 then d - 58 - l
         else if m = 3 then d - 89 - l
         else if m = 4 then d - 119 - l
         else if m = 5 then d - 150 - l
         else if m = 6 then d - 180 - l
         else if m = 7 then d - 211 - l
         else if m = 8 then d - 242 - l
         else if m = 9 then d - 272 - l
         else if m = 10 then d - 303 - l
         else d - 333 - l)"

text \<open>
  \<open>MakeDay (year, month, date)\<close>: the month may lie outside 0 to 11 and the date outside
  the month; the month is carried into the year, and the date is counted on from the
  first day of the month found. \<open>month_start\<close> is the day within the year of that first
  day.
\<close>

definition month_start :: "int \<Rightarrow> int \<Rightarrow> int" where
  "month_start y mn =
     (let l = (if DaysInYear y = 366 then 1 else 0)
      in if mn = 0 then 0
         else if mn = 1 then 31
         else if mn = 2 then 59 + l
         else if mn = 3 then 90 + l
         else if mn = 4 then 120 + l
         else if mn = 5 then 151 + l
         else if mn = 6 then 181 + l
         else if mn = 7 then 212 + l
         else if mn = 8 then 243 + l
         else if mn = 9 then 273 + l
         else if mn = 10 then 304 + l
         else 334 + l)"

definition MakeDay :: "int \<Rightarrow> int \<Rightarrow> int \<Rightarrow> int" where
  "MakeDay year month dt =
     (let ym = year + month div 12; mn = month mod 12
      in DayFromYear ym + month_start ym mn + dt - 1)"

definition MakeDate :: "int \<Rightarrow> int \<Rightarrow> int" where
  "MakeDate day time = day * msPerDay + time"

definition TimeClip :: "int \<Rightarrow> int option" where
  "TimeClip t = (if 8640000000000000 < \<bar>t\<bar> then None else Some t)"

text \<open>The length of month \<open>mn\<close> (0 is January) of year \<open>y\<close> in the Gregorian calendar.\<close>

definition DaysInMonth :: "int \<Rightarrow> int \<Rightarrow> int" where
  "DaysInMonth y mn =
     (if mn = 1 then (if DaysInYear y = 366 then 29 else 28)
      else if mn = 3 \<or> mn = 5 \<or> mn = 8 \<or> mn = 10 then 30
      else 31)"

subsection \<open>Permission resolver (permission.service.ts)\<close>

record UserPermission =
  module :: string
  canView :: bool
  canCreate :: bool
  canEdit :: bool
  canDelete :: bool

text \<open>The \<open>me\<close> query result; \<open>null\<close> is \<open>None\<close> at the use site.\<close>

record Me =
  me_id :: string
  me_name :: string
  email :: string
  roles :: "string list"

text \<open>The two signals of \<open>PermissionService\<close> (and of the pages that keep their own copy).\<close>

record PermissionService =
  me :: "Me option"
  myPermissions :: "UserPermission list"

text \<open>\<open>isAdmin = computed(() => (this.me()?.roles ?? []).includes('ADMIN'))\<close>\<close>

definition PermissionService_isAdmin :: "PermissionService \<Rightarrow> bool" where
  "PermissionService_isAdmin s =
     (''ADMIN'' \<in> set (case me s of None \<Rightarrow> [] | Some u \<Rightarrow> roles u))"

text \<open>
  \<open>perm(module) = this.myPermissions().find((x) => x.module === module.toUpperCase())\<close>:
  the first record whose stored module, taken as it is, equals the uppercased query.
\<close>

definition PermissionService_perm :: "PermissionService \<Rightarrow> string \<Rightarrow> UserPermission option" where
  "PermissionService_perm s m = find (\<lambda>x. module x = toUpperCase m) (myPermissions s)"

text \<open>\<open>Boolean(p?.field)\<close>: an absent record gives \<open>false\<close>.\<close>

definition Boolean_field :: "(UserPermission \<Rightarrow> bool) \<Rightarrow> UserPermission option \<Rightarrow> bool" where
  "Boolean_field f p = (case p of None \<Rightarrow> False | Some x \<Rightarrow> f x)"

definition PermissionService_canView :: "PermissionService \<Rightarrow> string \<Rightarrow> bool" where
  "PermissionService_canView s m =
     (if PermissionService_isAdmin s then True
      else Boolean_field canView (PermissionService_perm s m))"

definition PermissionService_canCreate :: "PermissionService \<Rightarrow> string \<Rightarrow> bool" where
  "PermissionService_canCreate s m =
     (if PermissionService_isAdmin s then True
      else Boolean_field canCreate (PermissionService_perm s m))"

definition PermissionService_canEdit :: "PermissionService \<Rightarrow> string \<Rightarrow> bool" where
  "PermissionService_canEdit s m =
     (if PermissionService_isAdmin s then True
      else Boolean_field canEdit (PermissionService_perm s m))"

definition PermissionService_canDelete :: "PermissionService \<Rightarrow> string \<Rightarrow> bool" where
  "PermissionService_canDelete s m =
     (if PermissionService_isAdmin s then True
      else Boolean_field canDelete (PermissionService_perm s m))"

text \<open>
  \<open>DashboardPage.canView\<close> (the shell layout and the home page carry the same body):
  \<^verbatim>\<open>
  if (this.isAdmin()) return true;
  const mod = String(module).toUpperCase();
  const p = this.myPermissions().find((x) => String(x.module).toUpperCase() === mod);
  return Boolean(p?.canView);
  \<close>
  Here both sides of the comparison are uppercased.
\<close>

definition DashboardPage_canView :: "PermissionService \<Rightarrow> string \<Rightarrow> bool" where
  "DashboardPage_canView s m =
     (if PermissionService_isAdmin s then True
      else (let mod' = toUpperCase m;
                p = find (\<lambda>x. toUpperCase (module x) = mod') (myPermissions s)
            in Boolean_field canView p))"

text \<open>Sample data used in the evaluations below.\<close>

definition storekeeper :: Me where
  "storekeeper = \<lparr>me_id = ''7'', me_name = ''Asha'', email = ''asha@example.org'',
                   roles = [''STOREKEEPER'']\<rparr>"

definition admin :: Me where
  "admin = \<lparr>me_id = ''1'', me_name = ''Root'', email = ''root@example.org'',
             roles = [''ADMIN'']\<rparr>"

definition sales_perm :: "string \<Rightarrow> bool \<Rightarrow> UserPermission" where
  "sales_perm name v =
     \<lparr>module = name, canView = v, canCreate = v, canEdit = v, canDelete = v\<rparr>"


subsection \<open>Date objects\<close>

type_synonym Date = "int option"

text \<open>
  \<open>new Date(year, month, date)\<close>: a year from 0 to 99 stands for 1900 plus that year
  (\<open>MakeFullYear\<close>), the fields are normalised by \<open>MakeDay\<close>, and a result outside the
  range of time values is the invalid date.
\<close>

definition MakeFullYear :: "int \<Rightarrow> int" where
  "MakeFullYear y = (if 0 \<le> y \<and> y \<le> 99 then 1900 + y else y)"

definition Date_of_fields :: "num \<Rightarrow> num \<Rightarrow> num \<Rightarrow> Date" where
  "Date_of_fields year month dt =
     (case (year, month, dt) of
        (Some y, Some m, Some d) \<Rightarrow>
          (let yr = MakeFullYear y
           in TimeClip (MakeDate (MakeDay yr m d) 0))
      | _ \<Rightarrow> None)"

definition getTime :: "Date \<Rightarrow> num" where
  "getTime d = d"

definition getFullYear :: "Date \<Rightarrow> num" where
  "getFullYear d = map_option YearFromTime d"

definition getMonth :: "Date \<Rightarrow> num" where
  "getMonth d = map_option MonthFromTime d"

definition getDate :: "Date \<Rightarrow> num" where
  "getDate d = map_option DateFromTime d"

definition getUTCFullYear :: "Date \<Rightarrow> num" where
  "getUTCFullYear d = map_option YearFromTime d"

definition getUTCMonth :: "Date \<Rightarrow> num" where
  "getUTCMonth d = map_option MonthFromTime d"

definition getUTCDate :: "Date \<Rightarrow> num" where
  "getUTCDate d = map_option DateFromTime d"

text \<open>
  \<open>d.setMonth(month)\<close> and \<open>d.setUTCDate(date)\<close> replace one field and rebuild the time
  value with \<open>MakeDay\<close>, keeping the time within the day. The model returns the new
  object.
\<close>

definition setMonth :: "Date \<Rightarrow> num \<Rightarrow> Date" where
  "setMonth d month =
     (case (d, month) of
        (Some t, Some m) \<Rightarrow>
          TimeClip (MakeDate (MakeDay (YearFromTime t) m (DateFromTime t)) (TimeWithinDay t))
      | _ \<Rightarrow> None)"

definition setUTCDate :: "Date \<Rightarrow> num \<Rightarrow> Date" where
  "setUTCDate d dt =
     (case (d, dt) of
        (Some t, Some v) \<Rightarrow>
          TimeClip (MakeDate (MakeDay (YearFromTime t) (MonthFromTime t) v) (TimeWithinDay t))
      | _ \<Rightarrow> None)"

text \<open>
  \<open>new Date(text)\<close>. ECMAScript fixes the result for its date-time string format; the
  model reads the one shape the code builds from a calendar date, \<open>YYYY-MM-DD\<close> followed
  by \<open>T00:00:00\<close> and an optional \<open>Z\<close>, with a month from 01 to 12 and a day that exists
  in that month. Every other text is the invalid date in the model; an engine may
  accept more (shorter ISO forms, its own legacy formats, a day up to 31 in a shorter
  month), so nothing below relies on the model's answer for such text.
\<close>

definition iso_fields :: "string \<Rightarrow> (int \<times> int \<times> int) option" where
  "iso_fields s =
     (case s of
        [y1, y2, y3, y4, c1, m1, m2, c2, d1, d2] \<Rightarrow>
          (if list_all is_digit [y1, y2, y3, y4, m1, m2, d1, d2]
              \<and> c1 = CHR ''-'' \<and> c2 = CHR ''-''
           then Some (digits_val [y1, y2, y3, y4], digits_val [m1, m2], digits_val [d1, d2])
           else None)
      | _ \<Rightarrow> None)"

definition Date_parse :: "string \<Rightarrow> Date" where
  "Date_parse s =
     (if drop 10 s = ''T00:00:00Z'' \<or> drop 10 s = ''T00:00:00''
      then (case iso_fields (take 10 s) of
              Some (y, m, d) \<Rightarrow>
                (if 1 \<le> m \<and> m \<le> 12 \<and> 1 \<le> d \<and> d \<le> DaysInMonth y (m - 1)
                 then TimeClip (MakeDate (MakeDay y (m - 1) d) 0)
                 else None)
            | None \<Rightarrow> None)
      else None)"

subsection \<open>Date utilities (date.utils.ts)\<close>

definition toIsoDate :: "Date \<Rightarrow> string" where
  "toIsoDate v =
     (let yyyy = getFullYear v;
          mm = padStart2 (String_num (num_add (getMonth v) (Some 1)));
          dd = padStart2 (String_num (getDate v))
      in String_num yyyy @ ''-'' @ mm @ ''-'' @ dd)"

definition startOfMonth :: "int \<Rightarrow> int \<Rightarrow> string" where
  "startOfMonth year month1to12 =
     (let mm = padStart2 (String_int month1to12)
      in String_int year @ ''-'' @ mm @ ''-01'')"

definition endOfMonth :: "int \<Rightarrow> int \<Rightarrow> string" where
  "endOfMonth year month1to12 =
     (let d = Date_of_fields (Some year) (Some month1to12) (Some 0)
      in toIsoDate d)"

subsection \<open>Day offsets on ISO dates (dashboard.page.ts, profit dashboard page)\<close>

text \<open>
  \<^verbatim>\<open>
  const d = new Date(`${dateIso}T00:00:00Z`);
  d.setUTCDate(d.getUTCDate() + days);
  const yyyy = d.getUTCFullYear();
  const mm = String(d.getUTCMonth() + 1).padStart(2, '0');
  const dd = String(d.getUTCDate()).padStart(2, '0');
  return `${yyyy}-${mm}-${dd}`;
  \<close>
  The two pages carry the same body.
\<close>

definition addDaysIso :: "string \<Rightarrow> int \<Rightarrow> string" where
  "addDaysIso dateIso days =
     (let d = Date_parse (dateIso @ ''T00:00:00Z'');
          d' = setUTCDate d (num_add (getUTCDate d) (Some days));
          yyyy = getUTCFullYear d';
          mm = padStart2 (String_num (num_add (getUTCMonth d') (Some 1)));
          dd = padStart2 (String_num (getUTCDate d'))
      in String_num yyyy @ ''-'' @ mm @ ''-'' @ dd)"


subsection \<open>Sales reports, expenses and the remote API\<close>

text \<open>
  Money is a JavaScript number. The aggregation only adds, subtracts and starts from
  zero, so the amounts are left abstract: any type \<open>'n\<close> with \<open>0\<close>, \<open>+\<close> and \<open>-\<close>.
\<close>

record 'n DailySalesReport =
  report_date :: string
  totalSalesAmount :: 'n
  totalProfitAmount :: 'n

record 'n Expense =
  expense_id :: string
  expense_date :: string
  amount :: 'n
  category_name :: "string option"

text \<open>
  The GraphQL service as the pages see it. A request either fails (\<open>None\<close>) or delivers
  its data; the daily report delivered may itself be \<open>null\<close> (the inner \<open>None\<close>). The
  expense query takes the \<open>from\<close> and \<open>to\<close> of its filter; a \<open>null\<close> list is the empty
  list.
\<close>

record 'n Backend =
  dailySalesReport :: "string \<Rightarrow> 'n DailySalesReport option option"
  expensesQuery :: "string option \<Rightarrow> string option \<Rightarrow> 'n Expense list option"

text \<open>
  \<open>forkJoin\<close> of a list of requests delivers the list of their results, in the order of
  the requests, once all have succeeded. It delivers nothing when a request fails, and
  nothing when the list is empty.
\<close>

definition forkJoin :: "'a option list \<Rightarrow> 'a list option" where
  "forkJoin reqs = (if reqs = [] then None else those reqs)"

text \<open>\<open>Number(r?.dailySalesReport?.totalProfitAmount ?? 0)\<close>\<close>

definition report_profit :: "'n::zero DailySalesReport option \<Rightarrow> 'n" where
  "report_profit r = (case r of None \<Rightarrow> 0 | Some x \<Rightarrow> totalProfitAmount x)"

text \<open>\<open>list.reduce((s, e) => s + Number(e.amount ?? 0), 0)\<close>\<close>

definition sum_amounts :: "'n::{zero,plus} Expense list \<Rightarrow> 'n" where
  "sum_amounts es = foldl (\<lambda>s e. s + amount e) 0 es"

subsection \<open>Profit management page (shell.layout.ts)\<close>

datatype ProfitMode = DAY | MONTH | YEAR

text \<open>The fields \<open>from\<close> and \<open>to\<close> of the source are \<open>fromDate\<close> and \<open>toDate\<close>.\<close>

record 'n ProfitRow =
  label :: string
  fromDate :: string
  toDate :: string
  grossProfit :: 'n
  expenses :: 'n
  netProfit :: 'n

text \<open>
  The raw value of the form. \<open>form_year\<close> and \<open>form_month\<close> are \<open>Number(raw.year)\<close> and
  \<open>Number(raw.month)\<close>, taken to be integers; empty or non-numeric text counts as 0, which
  the guards of \<open>load\<close> treat as they treat NaN.
\<close>

record ProfitForm =
  form_mode :: ProfitMode
  form_date :: string
  form_month :: int
  form_year :: int

text \<open>\<open>isoDateParts\<close>: the first three pieces of \<open>iso.split('-')\<close>, each through \<open>Number\<close>.\<close>

definition isoDateParts :: "string \<Rightarrow> num \<times> num \<times> num" where
  "isoDateParts iso_text =
     (let parts = map Number_str (split_on CHR ''-'' iso_text);
          part = (\<lambda>i. if i < length parts then parts ! i else None)
      in (part 0, part 1, part 2))"

text \<open>\<open>daysInMonth(year, month1to12) = new Date(year, month1to12, 0).getDate()\<close>\<close>

definition daysInMonth :: "num \<Rightarrow> num \<Rightarrow> num" where
  "daysInMonth year month1to12 = getDate (Date_of_fields year month1to12 (Some 0))"

definition pad2 :: "num \<Rightarrow> string" where
  "pad2 n = padStart2 (String_num n)"

text \<open>
  \<open>Array.from({ length: n })\<close> followed by \<open>.map((_, idx) => ...)\<close> runs over the indices
  below \<open>n\<close>; a length that is NaN gives the empty array.
\<close>

definition Array_from_length :: "num \<Rightarrow> int list" where
  "Array_from_length n = (case n of None \<Rightarrow> [] | Some k \<Rightarrow> [0..k - 1])"

definition buildMonthRows :: "int \<Rightarrow> int \<Rightarrow> 'n::zero ProfitRow list" where
  "buildMonthRows year month1to12 =
     (let days = daysInMonth (Some year) (Some month1to12);
          m = pad2 (Some month1to12)
      in map (\<lambda>idx.
                let day = idx + 1;
                    d = pad2 (Some day);
                    date = String_int year @ ''-'' @ m @ ''-'' @ d
                in \<lparr>label = date, fromDate = date, toDate = date,
                    grossProfit = 0, expenses = 0, netProfit = 0\<rparr>)
             (Array_from_length days))"

definition buildYearRows :: "int \<Rightarrow> 'n::zero ProfitRow list" where
  "buildYearRows year =
     map (\<lambda>idx.
            let month = idx + 1;
                m = pad2 (Some month);
                from' = String_int year @ ''-'' @ m @ ''-01'';
                to' = String_int year @ ''-'' @ m @ ''-''
                       @ pad2 (daysInMonth (Some year) (Some month))
            in \<lparr>label = String_int year @ ''-'' @ m, fromDate = from', toDate = to',
                grossProfit = 0, expenses = 0, netProfit = 0\<rparr>)
         [0..11]"


text \<open>
  \<open>load\<close>, one definition per mode. The result is what the call writes to the \<open>rows\<close>
  signal: \<open>Some rows\<close> when it writes, \<open>None\<close> when it does not (a request failed and the
  error handler ran, or \<open>forkJoin\<close> delivered nothing).

  Day mode:
  \<^verbatim>\<open>
  const date = String(raw.date ?? '').trim();
  if (!date) { this.rows.set([]); ... return; }
  forkJoin({ daily: request(qDaily, { date }),
             expenses: request(qExpenses, { filter: { from: date, to: date } }) })
  next: const gross = Number(daily?.dailySalesReport?.totalProfitAmount ?? 0);
        const expTotal = (expenses?.expenses ?? []).reduce((s, e) => s + Number(e.amount ?? 0), 0);
        this.rows.set([{ label: date, from: date, to: date,
                         grossProfit: gross, expenses: expTotal, netProfit: gross - expTotal }]);
  \<close>
\<close>

definition load_DAY :: "'n::{zero,plus,minus} Backend \<Rightarrow> ProfitForm \<Rightarrow> 'n ProfitRow list option" where
  "load_DAY srv raw =
     (let date = trim (form_date raw)
      in if date = [] then Some []
         else (case (dailySalesReport srv date, expensesQuery srv (Some date) (Some date)) of
                 (Some daily, Some exps) \<Rightarrow>
                   (let gross = report_profit daily;
                        expTotal = sum_amounts exps
                    in Some [\<lparr>label = date, fromDate = date, toDate = date,
                              grossProfit = gross, expenses = expTotal,
                              netProfit = gross - expTotal\<rparr>])
               | _ \<Rightarrow> None))"

text \<open>
  Month mode. The guard is \<open>!year || !month || month < 1 || month > 12\<close>. Each row is paired
  with the report requested for its date (\<open>daily[idx]\<close>; \<open>forkJoin\<close> keeps the order and
  the length of the requests), and with the expenses whose date equals the row's date.
\<close>

definition load_MONTH :: "'n::{zero,plus,minus} Backend \<Rightarrow> ProfitForm \<Rightarrow> 'n ProfitRow list option" where
  "load_MONTH srv raw =
     (let year = form_year raw; month = form_month raw
      in if year = 0 \<or> month = 0 \<or> month < 1 \<or> month > 12 then Some []
         else
           (let rows = buildMonthRows year month;
                from' = (case rows of [] \<Rightarrow> None | r # _ \<Rightarrow> Some (fromDate r));
                to' = (if rows = [] then None else Some (toDate (last rows)));
                dailyReqs = map (\<lambda>r. dailySalesReport srv (fromDate r)) rows
            in case (forkJoin dailyReqs, expensesQuery srv from' to') of
                 (Some daily, Some expList) \<Rightarrow>
                   Some (map (\<lambda>(r, rep).
                           let gross = report_profit rep;
                               expTotal = sum_amounts
                                 (filter (\<lambda>e. expense_date e = fromDate r) expList)
                           in r\<lparr>grossProfit := gross, expenses := expTotal,
                                netProfit := gross - expTotal\<rparr>)
                         (zip rows daily))
               | _ \<Rightarrow> None))"

text \<open>
  Year mode. For each of the twelve rows the reports of all days of the month are
  requested, the days being rebuilt from \<open>isoDateParts(r.from)\<close>; the gross profit of
  the row is their sum. Expenses are selected by comparing date strings, character by
  character, with the row's \<open>from\<close> and \<open>to\<close>.
\<close>

definition load_YEAR :: "'n::{zero,plus,minus} Backend \<Rightarrow> ProfitForm \<Rightarrow> 'n ProfitRow list option" where
  "load_YEAR srv raw =
     (let year = form_year raw
      in if year = 0 then Some []
         else
           (let rows = buildYearRows year;
                from' = (case rows of [] \<Rightarrow> None | r # _ \<Rightarrow> Some (fromDate r));
                to' = (if rows = [] then None else Some (toDate (last rows)));
                dailyPerMonthReqs =
                  map (\<lambda>r.
                         let (y, m, d) = isoDateParts (fromDate r);
                             days = daysInMonth y m;
                             dates = map (\<lambda>idx. String_num y @ ''-'' @ pad2 m @ ''-''
                                                  @ pad2 (Some (idx + 1)))
                                         (Array_from_length days)
                         in forkJoin (map (dailySalesReport srv) dates))
                      rows
            in case (forkJoin dailyPerMonthReqs, expensesQuery srv from' to') of
                 (Some perMonth, Some expList) \<Rightarrow>
                   Some (map (\<lambda>(r, reps).
                           let gross = foldl (\<lambda>s x. s + report_profit x) 0 reps;
                               expTotal = sum_amounts
                                 (filter (\<lambda>e. fromDate r \<le> expense_date e
                                              \<and> expense_date e \<le> toDate r) expList)
                           in r\<lparr>grossProfit := gross, expenses := expTotal,
                                netProfit := gross - expTotal\<rparr>)
                         (zip rows perMonth))
               | _ \<Rightarrow> None))"

definition ProfitManagementPage_load ::
    "'n::{zero,plus,minus} Backend \<Rightarrow> ProfitForm \<Rightarrow> 'n ProfitRow list option" where
  "ProfitManagementPage_load srv raw =
     (case form_mode raw of
        DAY \<Rightarrow> load_DAY srv raw
      | MONTH \<Rightarrow> load_MONTH srv raw
      | YEAR \<Rightarrow> load_YEAR srv raw)"


subsection \<open>Rolling seven-day profit (profit dashboard page, dashboard.page.ts)\<close>

text \<open>
  The part of \<open>ProfitDashboardPage.load\<close> that feeds the figures of the selected day and
  the seven-day chart:
  \<^verbatim>\<open>
  const date = String(raw.date ?? '').trim();
  if (!date) { this.loading.set(false); return; }
  const from7 = this.addDaysIso(date, -6);
  const to7 = this.addDaysIso(date, 0);
  const last7Dates = Array.from({ length: 7 }).map((_, i) => this.addDaysIso(date, i - 6));
  forkJoin({ daily: request(qDaily, { date }),
             expenses: request(qExpenses, { filter: { from: from7, to: to7 } }),
             last7: forkJoin(last7Dates.map((d) => request(qDaily, { date: d }))) })
  next: const expList = expenses.expenses ?? [];
        const profits = (last7 ?? []).map((r, idx) => {
          const d = last7Dates[idx];
          const salesProfit = Number(r?.dailySalesReport?.totalProfitAmount ?? 0);
          const expTotal = expList.filter((e) => String(e.date ?? '') === d)
                                  .reduce((sum, e) => sum + Number(e.amount ?? 0), 0);
          return salesProfit - expTotal; });
        this.profit7DaysLabels.set(last7Dates);
        this.profit7DaysData.set(profits);
  \<close>
  The result is \<open>None\<close> when the signals are not written. The same callback also fills the
  top-products and expense-breakdown charts, which are not modelled.
\<close>

record 'n ProfitSeries =
  todaySales :: 'n
  dayGrossProfit :: 'n
  expensesToday :: 'n
  profit7DaysLabels :: "string list"
  profit7DaysData :: "'n list"

definition profit_series ::
    "'n::{zero,plus,minus} Backend \<Rightarrow> string \<Rightarrow> string \<Rightarrow> 'n ProfitSeries option" where
  "profit_series srv date to7 =
     (let from7 = addDaysIso date (- 6);
          last7Dates = map (\<lambda>i. addDaysIso date (i - 6)) (Array_from_length (Some 7));
          dailyReq = dailySalesReport srv date;
          expensesReq = expensesQuery srv (Some from7) (Some to7);
          last7DailyReqs = map (dailySalesReport srv) last7Dates
      in case (dailyReq, expensesReq, forkJoin last7DailyReqs) of
           (Some report, Some expList, Some last7) \<Rightarrow>
             (let expensesForDay = filter (\<lambda>e. expense_date e = date) expList;
                  profits = map (\<lambda>(d, r).
                              let salesProfit = report_profit r;
                                  expTotal = sum_amounts
                                    (filter (\<lambda>e. expense_date e = d) expList)
                              in salesProfit - expTotal)
                            (zip last7Dates last7)
              in Some \<lparr>todaySales = (case report of None \<Rightarrow> 0
                                        | Some x \<Rightarrow> totalSalesAmount x),
                       dayGrossProfit = report_profit report,
                       expensesToday = sum_amounts expensesForDay,
                       profit7DaysLabels = last7Dates,
                       profit7DaysData = profits\<rparr>)
         | _ \<Rightarrow> None)"

definition ProfitDashboardPage_load ::
    "'n::{zero,plus,minus} Backend \<Rightarrow> string \<Rightarrow> 'n ProfitSeries option" where
  "ProfitDashboardPage_load srv raw_date =
     (let date = trim raw_date
      in if date = [] then None
         else profit_series srv date (addDaysIso date 0))"

text \<open>
  \<open>DashboardPage.loadProfit\<close> has the same body behind a permission guard,
  \<open>if (!this.canView('REPORTS')) return;\<close>, and asks for the expenses up to \<open>date\<close> itself.
\<close>

definition DashboardPage_loadProfit ::
    "PermissionService \<Rightarrow> 'n::{zero,plus,minus} Backend \<Rightarrow> string \<Rightarrow> 'n ProfitSeries option" where
  "DashboardPage_loadProfit s srv raw_date =
     (if \<not> DashboardPage_canView s ''REPORTS'' then None
      else (let date = trim raw_date
            in if date = [] then None
               else profit_series srv date date))"

subsection \<open>Inventory status classifier (inventory.page.ts)\<close>

record InventoryItem =
  item_id :: string
  productId :: string
  sku :: string
  productName :: string
  unitOfMeasure :: "string option"
  batchId :: string
  batchNumber :: string
  expiryDate :: string
  location :: string
  qtyOnHand :: real

datatype StatusLabel = Expired | Near_expiry | Out_of_stock | Sell_allowed

text \<open>\<open>startOfDay(d) = new Date(d.getFullYear(), d.getMonth(), d.getDate())\<close>\<close>

definition startOfDay :: "Date \<Rightarrow> Date" where
  "startOfDay d = Date_of_fields (getFullYear d) (getMonth d) (getDate d)"

text \<open>
  \<^verbatim>\<open>
  const copy = new Date(d.getTime());
  copy.setMonth(copy.getMonth() + months);
  return this.startOfDay(copy);
  \<close>
\<close>

definition addMonths :: "Date \<Rightarrow> int \<Rightarrow> Date" where
  "addMonths d months =
     (let copy = getTime d;
          copy' = setMonth copy (num_add (getMonth copy) (Some months))
      in startOfDay copy')"

text \<open>
  \<open>parseDateOnly\<close> hands a server string to \<open>new Date(text)\<close>. What an engine makes of
  arbitrary text is its own business, so the constructor is a parameter \<open>newDate\<close> here.
  \<^verbatim>\<open>
  const trimmed = (value ?? '').trim();
  if (!trimmed) return this.startOfDay(new Date(0));
  const d = new Date(`${trimmed}T00:00:00`);
  if (!Number.isFinite(d.getTime())) return this.startOfDay(new Date(0));
  return this.startOfDay(d);
  \<close>
\<close>

definition parseDateOnly :: "(string \<Rightarrow> Date) \<Rightarrow> string \<Rightarrow> Date" where
  "parseDateOnly newDate v =
     (let trimmed = trim v
      in if trimmed = [] then startOfDay (Some 0)
         else (let d = newDate (trimmed @ ''T00:00:00'')
               in if getTime d = None then startOfDay (Some 0)
                  else startOfDay d))"

text \<open>
  \<open>statusLabel\<close>; \<open>now\<close> is the time value of \<open>new Date()\<close>, the wall clock.
  \<^verbatim>\<open>
  if (i.qtyOnHand <= 0) return 'Out of stock';
  const expiry = this.parseDateOnly(i.expiryDate);
  const today = this.startOfDay(new Date());
  if (expiry.getTime() < today.getTime()) return 'Expired';
  const nearExpiryLimit = this.addMonths(today, 3);
  if (expiry.getTime() <= nearExpiryLimit.getTime()) return 'Near expiry';
  return 'Sell allowed';
  \<close>
\<close>

definition statusLabel :: "(string \<Rightarrow> Date) \<Rightarrow> int \<Rightarrow> InventoryItem \<Rightarrow> StatusLabel" where
  "statusLabel newDate now i =
     (if qtyOnHand i \<le> 0 then Out_of_stock
      else (let expiry = parseDateOnly newDate (expiryDate i);
                today = startOfDay (Some now)
            in if num_less (getTime expiry) (getTime today) then Expired
               else (let nearExpiryLimit = addMonths today 3
                     in if num_le (getTime expiry) (getTime nearExpiryLimit)
                        then Near_expiry
                        else Sell_allowed)))"


subsection \<open>Date labels and well-formed ISO dates\<close>

text \<open>The date label that the row builders print for a year, a month and a day.\<close>

definition iso_label :: "int \<Rightarrow> int \<Rightarrow> int \<Rightarrow> string" where
  "iso_label y m d = String_int y @ ''-'' @ pad2 (Some m) @ ''-'' @ pad2 (Some d)"

text \<open>
  A well-formed ISO date is ten characters \<open>YYYY-MM-DD\<close> that name a day of the calendar:
  a month from 01 to 12 and a day that the month has in that year.
\<close>

definition is_iso_date :: "string \<Rightarrow> bool" where
  "is_iso_date s =
     (case iso_fields s of
        None \<Rightarrow> False
      | Some (y, m, d) \<Rightarrow> 1 \<le> m \<and> m \<le> 12 \<and> 1 \<le> d \<and> d \<le> DaysInMonth y (m - 1))"

definition iso_year :: "string \<Rightarrow> int" where
  "iso_year s = (case iso_fields s of None \<Rightarrow> 0 | Some (y, m, d) \<Rightarrow> y)"

subsection \<open>The single-day net profit\<close>

text \<open>
  The profit of one day as the specification words it: the \<open>totalProfitAmount\<close> of that
  day's sales report, 0 when the report is \<open>null\<close>, minus the sum of the amounts of the
  expenses dated that day.
\<close>

definition single_day_net ::
    "'n::{zero,plus,minus} Backend \<Rightarrow> 'n Expense list \<Rightarrow> string \<Rightarrow> 'n" where
  "single_day_net srv expList day =
     report_profit (case dailySalesReport srv day of None \<Rightarrow> None | Some r \<Rightarrow> r)
     - sum_amounts (filter (\<lambda>e. expense_date e = day) expList)"

subsection \<open>The classification rule in calendar days\<close>

text \<open>
  The rule as the specification words it, on day numbers. \<open>expiry_instant\<close> is the time
  value the expiry text stands for: what the engine's parser makes of it, and the epoch
  when the text is blank or the parser gives the invalid date. \<open>three_months_on\<close> is the
  day reached from the day of \<open>t\<close> by adding 3 to the month field and letting \<open>MakeDay\<close>
  normalise, as \<open>setMonth\<close> does.
\<close>

definition expiry_instant :: "(string \<Rightarrow> Date) \<Rightarrow> string \<Rightarrow> int" where
  "expiry_instant newDate v =
     (if trim v = [] then 0
      else (case newDate (trim v @ ''T00:00:00'') of None \<Rightarrow> 0 | Some e \<Rightarrow> e))"

definition three_months_on :: "int \<Rightarrow> int" where
  "three_months_on t = MakeDay (YearFromTime t) (MonthFromTime t + 3) (DateFromTime t)"

definition status_by_rule :: "real \<Rightarrow> int \<Rightarrow> int \<Rightarrow> StatusLabel" where
  "status_by_rule qty e now =
     (if qty \<le> 0 then Out_of_stock
      else if Day e < Day now then Expired
      else if Day e \<le> three_months_on now then Near_expiry
      else Sell_allowed)"

subsection \<open>Sample data\<close>

text \<open>
  A week of May 2024: daily profits 10, 20, 15, 0, 5, 30, 12 for the first to the seventh,
  and two expenses on the third, 5 and 3.
\<close>

definition may_profit :: "string \<Rightarrow> int" where
  "may_profit d =
     (if d = ''2024-05-01'' then 10 else if d = ''2024-05-02'' then 20
      else if d = ''2024-05-03'' then 15 else if d = ''2024-05-04'' then 0
      else if d = ''2024-05-05'' then 5 else if d = ''2024-05-06'' then 30
      else if d = ''2024-05-07'' then 12 else 0)"

definition may_expenses :: "int Expense list" where
  "may_expenses =
     [\<lparr>expense_id = ''e1'', expense_date = ''2024-05-03'', amount = 5,
       category_name = Some ''Rent''\<rparr>,
      \<lparr>expense_id = ''e2'', expense_date = ''2024-05-03'', amount = 3,
       category_name = None\<rparr>]"

definition may_backend :: "int Backend" where
  "may_backend =
     \<lparr>dailySalesReport =
        (\<lambda>d. Some (Some \<lparr>report_date = d, totalSalesAmount = 100,
                            totalProfitAmount = may_profit d\<rparr>)),
      expensesQuery = (\<lambda>f t. Some may_expenses)\<rparr>"

text \<open>A backend with no report and no expense for any day.\<close>

definition quiet_backend :: "int Backend" where
  "quiet_backend = \<lparr>dailySalesReport = (\<lambda>d. Some None), expensesQuery = (\<lambda>f t. Some [])\<rparr>"

text \<open>What the profit dashboard shows for 7 May 2024 on the sample data.\<close>

definition may_series :: "int ProfitSeries" where
  "may_series =
     \<lparr>todaySales = 100, dayGrossProfit = 12, expensesToday = 0,
      profit7DaysLabels = [''2024-05-01'', ''2024-05-02'', ''2024-05-03'', ''2024-05-04'',
                           ''2024-05-05'', ''2024-05-06'', ''2024-05-07''],
      profit7DaysData = [10, 20, 7, 0, 5, 30, 12]\<rparr>"

text \<open>
  A backend of the year 999: no report for any day, and one expense of 8 dated
  28 December 999, written as the ISO date it is; and what the profit dashboard then shows
  for the anchor 31 December 999.
\<close>

definition old_expenses :: "int Expense list" where
  "old_expenses =
     [\<lparr>expense_id = ''e9'', expense_date = ''0999-12-28'', amount = 8,
       category_name = Some ''Rent''\<rparr>]"

definition old_backend :: "int Backend" where
  "old_backend =
     \<lparr>dailySalesReport = (\<lambda>d. Some None), expensesQuery = (\<lambda>f t. Some old_expenses)\<rparr>"

definition old_series :: "int ProfitSeries" where
  "old_series =
     \<lparr>todaySales = 0, dayGrossProfit = 0, expensesToday = 0,
      profit7DaysLabels = [''999-12-25'', ''999-12-26'', ''999-12-27'', ''999-12-28'',
                           ''999-12-29'', ''999-12-30'', ''999-12-31''],
      profit7DaysData = [0, 0, 0, 0, 0, 0, 0]\<rparr>"

text \<open>An inventory item with a given expiry text and quantity.\<close>

definition sample_item :: "string \<Rightarrow> real \<Rightarrow> InventoryItem" where
  "sample_item e q =
     \<lparr>item_id = ''i1'', productId = ''p1'', sku = ''SKU-1'', productName = ''Flour'',
      unitOfMeasure = None, batchId = ''b1'', batchNumber = ''B-001'',
      expiryDate = e, location = ''MAIN'', qtyOnHand = q\<rparr>"

section \<open>Properties of the permission resolver\<close>

lemma find_filter_hd:
  "filter P xs = p # ps \<Longrightarrow> find P xs = Some p"
  by (induction xs) (auto split: if_splits)

text \<open>
  C4. When the user's roles contain \<open>ADMIN\<close>, the four capability queries answer \<open>true\<close>
  for every module string and every permission list, the empty list included.
\<close>

theorem admin_has_every_capability:
  assumes "me s = Some u" and "''ADMIN'' \<in> set (roles u)"
  shows "PermissionService_canView s m \<and> PermissionService_canCreate s m
       \<and> PermissionService_canEdit s m \<and> PermissionService_canDelete s m"
  using assms
  by (simp add: PermissionService_canView_def PermissionService_canCreate_def
      PermissionService_canEdit_def PermissionService_canDelete_def
      PermissionService_isAdmin_def)

theorem admin_has_every_capability_witness:
  "PermissionService_canView \<lparr>me = Some admin, myPermissions = []\<rparr> ''ANYTHING''
   \<and> PermissionService_canCreate \<lparr>me = Some admin, myPermissions = []\<rparr> ''ANYTHING''
   \<and> PermissionService_canEdit \<lparr>me = Some admin, myPermissions = []\<rparr> ''ANYTHING''
   \<and> PermissionService_canDelete \<lparr>me = Some admin, myPermissions = []\<rparr> ''ANYTHING''"
  using admin_has_every_capability
    [of "\<lparr>me = Some admin, myPermissions = []\<rparr>" admin "''ANYTHING''"]
  by (simp add: admin_def)

text \<open>
  C5. The lookup is specified to uppercase the stored module as well as the query.
  \<open>PermissionService.perm\<close> uppercases the query only: a record stored as \<open>Sales\<close> is not
  found for the query \<open>SALES\<close>, and the storekeeper is refused. The page-level \<open>canView\<close>
  of the dashboard, on the same data, finds the record.
\<close>

theorem perm_misses_mixed_case_stored_module:
  "PermissionService_canView
     \<lparr>me = Some storekeeper, myPermissions = [sales_perm ''Sales'' True]\<rparr> ''SALES'' = False
   \<and> DashboardPage_canView
     \<lparr>me = Some storekeeper, myPermissions = [sales_perm ''Sales'' True]\<rparr> ''SALES'' = True"
  by code_simp

text \<open>
  C6, as stated: with two records for \<open>SALES\<close>, the first granting and the last refusing,
  the query would have to answer with the last record. It answers with the first.
\<close>

theorem last_record_does_not_win:
  "PermissionService_canView
     \<lparr>me = Some storekeeper,
      myPermissions = [sales_perm ''SALES'' True, sales_perm ''SALES'' False]\<rparr> ''SALES''
   = True
   \<and> canView (last [sales_perm ''SALES'' True, sales_perm ''SALES'' False]) = False"
  by code_simp

text \<open>
  C6, amended: for a user who is not an administrator, when the list holds one or more
  records whose module equals the uppercased query, each capability query returns the
  field of the first of them.
\<close>

theorem first_record_wins:
  assumes "\<not> PermissionService_isAdmin s"
    and "filter (\<lambda>x. module x = toUpperCase m) (myPermissions s) = p # ps"
  shows "PermissionService_canView s m = canView p
       \<and> PermissionService_canCreate s m = canCreate p
       \<and> PermissionService_canEdit s m = canEdit p
       \<and> PermissionService_canDelete s m = canDelete p"
proof -
  have "PermissionService_perm s m = Some p"
    unfolding PermissionService_perm_def using assms(2) by (rule find_filter_hd)
  with assms(1) show ?thesis
    by (simp add: PermissionService_canView_def PermissionService_canCreate_def
        PermissionService_canEdit_def PermissionService_canDelete_def Boolean_field_def)
qed

theorem first_record_wins_witness:
  "PermissionService_canView
     \<lparr>me = Some storekeeper,
      myPermissions = [sales_perm ''SALES'' True, sales_perm ''SALES'' False]\<rparr> ''sales''
   = True"
proof -
  let ?s = "\<lparr>me = Some storekeeper,
      myPermissions = [sales_perm ''SALES'' True, sales_perm ''SALES'' False]\<rparr>"
  have a: "\<not> PermissionService_isAdmin ?s" by code_simp
  have b: "filter (\<lambda>x. module x = toUpperCase ''sales'') (myPermissions ?s)
           = sales_perm ''SALES'' True # [sales_perm ''SALES'' False]"
    by code_simp
  from first_record_wins [OF a b] show ?thesis by (simp add: sales_perm_def)
qed

text \<open>
  C7. For a user who is not an administrator and a module with no matching record, the
  four capability queries answer \<open>false\<close>. The lookup is a total function of the module
  string and the list: it has no failing branch, and on no match it yields no record.
\<close>

theorem absent_module_is_refused:
  assumes "\<not> PermissionService_isAdmin s"
    and "\<forall>x \<in> set (myPermissions s). module x \<noteq> toUpperCase m"
  shows "PermissionService_perm s m = None
       \<and> \<not> PermissionService_canView s m \<and> \<not> PermissionService_canCreate s m
       \<and> \<not> PermissionService_canEdit s m \<and> \<not> PermissionService_canDelete s m"
proof -
  have "PermissionService_perm s m = None"
    unfolding PermissionService_perm_def using assms(2) by (simp add: find_None_iff)
  with assms(1) show ?thesis
    by (simp add: PermissionService_canView_def PermissionService_canCreate_def
        PermissionService_canEdit_def PermissionService_canDelete_def Boolean_field_def)
qed

theorem absent_module_is_refused_witness:
  "\<not> PermissionService_canView
       \<lparr>me = Some storekeeper, myPermissions = [sales_perm ''SALES'' True]\<rparr> ''PURCHASING''
   \<and> \<not> PermissionService_canDelete \<lparr>me = None, myPermissions = []\<rparr> ''ANYTHING''"
proof -
  let ?s = "\<lparr>me = Some storekeeper, myPermissions = [sales_perm ''SALES'' True]\<rparr>"
  let ?e = "\<lparr>me = None, myPermissions = []\<rparr>"
  have a: "\<not> PermissionService_isAdmin ?s" by code_simp
  have b: "\<forall>x \<in> set (myPermissions ?s). module x \<noteq> toUpperCase ''PURCHASING''"
    by code_simp
  have c: "\<not> PermissionService_isAdmin ?e" by code_simp
  have d: "\<forall>x \<in> set (myPermissions ?e). module x \<noteq> toUpperCase ''ANYTHING''"
    by simp
  from absent_module_is_refused [OF a b] absent_module_is_refused [OF c d]
  show ?thesis by simp
qed


section \<open>Calendar arithmetic\<close>

text \<open>
  The computed \<open>YearFromTime\<close> meets its specification, and the calendar fields and
  \<open>MakeDay\<close> are inverse to each other.
\<close>

lemma int_div_bounds:
  "0 < c \<Longrightarrow> c * (x div c) \<le> x \<and> x < c * (x div c) + c" for x c :: int
  by (metis add_strict_left_mono mult_div_mod_eq pos_mod_bound pos_mod_sign le_add_same_cancel1)

lemma div_succ:
  fixes x c :: int
  assumes "0 < c"
  shows "(x + 1) div c = x div c + (if (x + 1) mod c = 0 then 1 else 0)"
proof (cases "x mod c + 1 < c")
  case True
  have eq: "x + 1 = c * (x div c) + (x mod c + 1)" by simp
  have r: "0 \<le> x mod c + 1" using assms by (simp add: add_nonneg_nonneg)
  have "(x + 1) div c = x div c" using int_div_pos_eq [OF eq r True] .
  moreover have "(x + 1) mod c = x mod c + 1" using int_mod_pos_eq [OF eq r True] .
  moreover have "0 \<le> x mod c" using assms by simp
  ultimately show ?thesis by simp
next
  case False
  have "x mod c < c" using assms by simp
  with False have r: "x mod c + 1 = c" by simp
  have "x + 1 = c * (x div c) + (x mod c + 1)" by simp
  also have "\<dots> = c * (x div c) + c" using r by simp
  finally have eq: "x + 1 = c * (x div c + 1) + 0" by (simp add: algebra_simps)
  have "(x + 1) div c = x div c + 1" using int_div_pos_eq [OF eq _ assms] by simp
  moreover have "(x + 1) mod c = 0" using int_mod_pos_eq [OF eq _ assms] by simp
  ultimately show ?thesis by simp
qed

lemma mod_shift: "c dvd k \<Longrightarrow> (y - k) mod c = y mod c" for y c k :: int
  by (metis mod_diff_right_eq dvd_imp_mod_0 diff_zero)

lemma div4_succ: "(y + 1 - 1969) div 4 = (y - 1969) div 4 + (if y mod 4 = 0 then 1 else 0)" for y :: int
proof -
  have "(y - 1969 + 1) mod 4 = y mod 4" using mod_shift [of 4 1968 y] by simp
  then show ?thesis using div_succ [of 4 "y - 1969"] by (simp add: algebra_simps)
qed
lemma div100_succ: "(y + 1 - 1901) div 100 = (y - 1901) div 100 + (if y mod 100 = 0 then 1 else 0)" for y :: int
proof -
  have "(y - 1901 + 1) mod 100 = y mod 100" using mod_shift [of 100 1900 y] by simp
  then show ?thesis using div_succ [of 100 "y - 1901"] by (simp add: algebra_simps)
qed
lemma div400_succ: "(y + 1 - 1601) div 400 = (y - 1601) div 400 + (if y mod 400 = 0 then 1 else 0)" for y :: int
proof -
  have "(y - 1601 + 1) mod 400 = y mod 400" using mod_shift [of 400 1600 y] by simp
  then show ?thesis using div_succ [of 400 "y - 1601"] by (simp add: algebra_simps)
qed
lemma mod400_100: "y mod 400 = 0 \<Longrightarrow> y mod 100 = 0" for y :: int
proof -
  assume "y mod 400 = 0"
  then have "400 dvd y" by (simp add: mod_eq_0_iff_dvd)
  moreover have "(100::int) dvd 400" by simp
  ultimately have "100 dvd y" by (rule dvd_trans[rotated])
  then show ?thesis by (simp add: mod_eq_0_iff_dvd)
qed
lemma mod100_4: "y mod 100 = 0 \<Longrightarrow> y mod 4 = 0" for y :: int
proof -
  assume "y mod 100 = 0"
  then have "100 dvd y" by (simp add: mod_eq_0_iff_dvd)
  moreover have "(4::int) dvd 100" by simp
  ultimately have "4 dvd y" by (rule dvd_trans[rotated])
  then show ?thesis by (simp add: mod_eq_0_iff_dvd)
qed


lemma DayFromYear_Suc: "DayFromYear (y + 1) = DayFromYear y + DaysInYear y"
  unfolding DayFromYear_def DaysInYear_def div4_succ div100_succ div400_succ
  using mod400_100 [of y] mod100_4 [of y] by auto

lemma DaysInYear_ge: "365 \<le> DaysInYear y" and DaysInYear_le: "DaysInYear y \<le> 366"
  by (simp_all add: DaysInYear_def)

lemma DayFromYear_bounds:
  "146097 * (y - 1970) - 506 \<le> 400 * DayFromYear y"
  "400 * DayFromYear y \<le> 146097 * (y - 1970) + 589"
proof -
  define k where "k = y - 1970"
  define a where "a = (k + 1) div 4"
  define b where "b = (k + 69) div 100"
  define c where "c = (k + 369) div 400"
  have a: "4 * a \<le> k + 1" "k + 1 < 4 * a + 4"
    unfolding a_def using int_div_bounds [of 4 "k + 1"] by simp_all
  have b: "100 * b \<le> k + 69" "k + 69 < 100 * b + 100"
    unfolding b_def using int_div_bounds [of 100 "k + 69"] by simp_all
  have c: "400 * c \<le> k + 369" "k + 369 < 400 * c + 400"
    unfolding c_def using int_div_bounds [of 400 "k + 369"] by simp_all
  have D: "DayFromYear y = 365 * k + a - b + c"
    unfolding DayFromYear_def a_def b_def c_def k_def by (simp add: algebra_simps)
  show "146097 * (y - 1970) - 506 \<le> 400 * DayFromYear y"
    unfolding D using a b c by (simp add: k_def)
  show "400 * DayFromYear y \<le> 146097 * (y - 1970) + 589"
    unfolding D using a b c by (simp add: k_def)
qed


lemma TimeFromYear_le_iff: "TimeFromYear y \<le> t \<longleftrightarrow> DayFromYear y \<le> Day t"
  unfolding TimeFromYear_def Day_def msPerDay_def
  using int_div_bounds [of 86400000 t] by auto

lemma DayFromYear_less: "DayFromYear y < DayFromYear (y + 1)"
  using DaysInYear_ge [of y] by (simp add: DayFromYear_Suc)

lemma YearFromTime_unique:
  assumes "TimeFromYear y \<le> t" and "t < TimeFromYear (y + 1)"
  shows "YearFromTime t = y"
proof -
  define q where "q = (400 * Day t) div 146097"
  have lo: "DayFromYear y \<le> Day t"
    using assms(1) by (simp add: TimeFromYear_le_iff)
  have hi: "Day t < DayFromYear (y + 1)"
    using assms(2) by (simp add: TimeFromYear_le_iff not_le [symmetric])
  have q: "146097 * q \<le> 400 * Day t" "400 * Day t < 146097 * q + 146097"
    unfolding q_def using int_div_bounds [of 146097 "400 * Day t"] by simp_all
  have "y - 1970 - 1 \<le> q"
    using q(2) lo DayFromYear_bounds(1) [of y] by simp
  moreover have "q \<le> y - 1970 + 1"
    using q(1) hi DayFromYear_bounds(2) [of "y + 1"] by simp
  ultimately consider "1970 + q = y - 1" | "1970 + q = y" | "1970 + q = y + 1"
    by arith
  note cases3 = this
  note Y = YearFromTime_def [of t, unfolded Let_def, folded q_def]
  from cases3 show ?thesis
  proof cases
    case 1
    have "DayFromYear (y - 1) \<le> Day t"
      using DayFromYear_less [of "y - 1"] lo by simp
    then have "\<not> t < TimeFromYear (y - 1)"
      by (simp add: TimeFromYear_le_iff not_less)
    moreover have "TimeFromYear (y - 1 + 1) \<le> t" using assms(1) by simp
    ultimately show ?thesis unfolding Y 1 by simp
  next
    case 2
    with assms show ?thesis unfolding Y 2 by simp
  next
    case 3
    with assms show ?thesis unfolding Y 3 by simp
  qed
qed



lemma Day_MakeDate:
  "0 \<le> tod \<Longrightarrow> tod < msPerDay \<Longrightarrow> Day (MakeDate d tod) = d"
  unfolding Day_def MakeDate_def msPerDay_def
  by (simp add: div_pos_pos_trivial)

lemma YearFromTime_in_year:
  assumes "0 \<le> k" and "k < DaysInYear y" and "0 \<le> tod" and "tod < msPerDay"
  shows "YearFromTime (MakeDate (DayFromYear y + k) tod) = y"
proof (rule YearFromTime_unique)
  show "TimeFromYear y \<le> MakeDate (DayFromYear y + k) tod"
    using assms by (simp add: TimeFromYear_le_iff Day_MakeDate)
  have "\<not> DayFromYear (y + 1) \<le> Day (MakeDate (DayFromYear y + k) tod)"
    using assms by (simp add: Day_MakeDate DayFromYear_Suc)
  then show "MakeDate (DayFromYear y + k) tod < TimeFromYear (y + 1)"
    by (simp add: TimeFromYear_le_iff not_le [symmetric])
qed

lemma month_cases:
  fixes m :: int
  assumes "0 \<le> m" and "m \<le> 11"
  obtains "m = 0" | "m = 1" | "m = 2" | "m = 3" | "m = 4" | "m = 5"
    | "m = 6" | "m = 7" | "m = 8" | "m = 9" | "m = 10" | "m = 11"
proof -
  have "m = 0 \<or> m = 1 \<or> m = 2 \<or> m = 3 \<or> m = 4 \<or> m = 5
      \<or> m = 6 \<or> m = 7 \<or> m = 8 \<or> m = 9 \<or> m = 10 \<or> m = 11"
    using assms by presburger
  then show thesis using that by blast
qed

lemma month_start_range:
  assumes "0 \<le> m" and "m \<le> 11" and "1 \<le> d" and "d \<le> DaysInMonth y m"
  shows "0 \<le> month_start y m + d - 1" "month_start y m + d - 1 < DaysInYear y"
proof -
  have L: "DaysInYear y = 365 \<or> DaysInYear y = 366" by (simp add: DaysInYear_def)
  from assms(1,2) show "0 \<le> month_start y m + d - 1"
    using assms(3) by (cases rule: month_cases) (simp_all add: month_start_def)
  from assms(1,2) show "month_start y m + d - 1 < DaysInYear y"
    using assms(4) L by (cases rule: month_cases) (auto simp add: month_start_def DaysInMonth_def)
qed

lemma fields_of_MakeDay:
  assumes "0 \<le> m" and "m \<le> 11" and "1 \<le> d" and "d \<le> DaysInMonth y m"
    and "0 \<le> tod" and "tod < msPerDay"
  shows "YearFromTime (MakeDate (MakeDay y m d) tod) = y"
    "MonthFromTime (MakeDate (MakeDay y m d) tod) = m"
    "DateFromTime (MakeDate (MakeDay y m d) tod) = d"
proof -
  let ?t = "MakeDate (MakeDay y m d) tod"
  have md: "MakeDay y m d = DayFromYear y + (month_start y m + d - 1)"
    using assms(1,2) by (simp add: MakeDay_def div_pos_pos_trivial mod_pos_pos_trivial)
  have Y: "YearFromTime ?t = y"
    unfolding md using month_start_range [OF assms(1-4)] assms(5,6)
    by (rule YearFromTime_in_year)
  then show "YearFromTime ?t = y" .
  have W: "DayWithinYear ?t = month_start y m + d - 1"
    unfolding DayWithinYear_def Y using assms(5,6) by (simp add: Day_MakeDate md)
  have I: "InLeapYear ?t = (if DaysInYear y = 366 then 1 else 0)"
    by (simp add: InLeapYear_def Y)
  from assms(1,2) show M: "MonthFromTime ?t = m"
    using assms(3,4) unfolding MonthFromTime_def W I
    by (cases rule: month_cases) (auto simp add: month_start_def DaysInMonth_def)
  from assms(1,2) show "DateFromTime ?t = d"
    unfolding DateFromTime_def M W I
    by (cases rule: month_cases) (auto simp add: month_start_def)
qed


lemma DayFromYear_mono_nat: "DayFromYear y \<le> DayFromYear (y + int n)"
proof (induction n)
  case 0
  then show ?case by simp
next
  case (Suc n)
  have "DayFromYear (y + int n) < DayFromYear (y + int n + 1)" by (rule DayFromYear_less)
  moreover have e: "y + int (Suc n) = y + int n + 1" by simp
  ultimately show ?case unfolding e using Suc by linarith
qed

lemma DayFromYear_mono: "a \<le> b \<Longrightarrow> DayFromYear a \<le> DayFromYear b"
  using DayFromYear_mono_nat [of a "nat (b - a)"] by simp

lemma YearFromTime_range:
  "TimeFromYear (YearFromTime t) \<le> t" "t < TimeFromYear (YearFromTime t + 1)"
proof -
  define q where "q = (400 * Day t) div 146097"
  define y0 where "y0 = 1970 + q"
  have q: "146097 * q \<le> 400 * Day t" "400 * Day t < 146097 * q + 146097"
    unfolding q_def using int_div_bounds [of 146097 "400 * Day t"] by simp_all
  have lo: "DayFromYear (y0 - 1) \<le> Day t"
    using q(1) DayFromYear_bounds(2) [of "y0 - 1"] by (simp add: y0_def)
  have hi: "Day t < DayFromYear (y0 + 2)"
    using q(2) DayFromYear_bounds(1) [of "y0 + 2"] by (simp add: y0_def)
  note Y = YearFromTime_def [of t, unfolded Let_def, folded q_def, folded y0_def]
  have A: "TimeFromYear (YearFromTime t) \<le> t \<and> t < TimeFromYear (YearFromTime t + 1)"
  proof (cases "t < TimeFromYear y0")
    case True
    then have "YearFromTime t = y0 - 1" by (simp add: Y)
    with True lo show ?thesis by (simp add: TimeFromYear_le_iff)
  next
    case False
    show ?thesis
    proof (cases "TimeFromYear (y0 + 1) \<le> t")
      case True
      with False have "YearFromTime t = y0 + 1" by (simp add: Y)
      with True hi show ?thesis
        by (simp add: TimeFromYear_le_iff not_le [symmetric] add.assoc)
    next
      case F2: False
      with False have "YearFromTime t = y0" by (simp add: Y)
      with False F2 show ?thesis by simp
    qed
  qed
  from A show "TimeFromYear (YearFromTime t) \<le> t" by simp
  from A show "t < TimeFromYear (YearFromTime t + 1)" by simp
qed

lemma DayWithinYear_range:
  "0 \<le> DayWithinYear t" "DayWithinYear t < DaysInYear (YearFromTime t)"
proof -
  have "DayFromYear (YearFromTime t) \<le> Day t"
    using YearFromTime_range(1) [of t] by (simp add: TimeFromYear_le_iff)
  then show "0 \<le> DayWithinYear t" by (simp add: DayWithinYear_def)
  have "\<not> DayFromYear (YearFromTime t + 1) \<le> Day t"
    using YearFromTime_range(2) [of t] by (simp add: TimeFromYear_le_iff not_le [symmetric])
  then show "DayWithinYear t < DaysInYear (YearFromTime t)"
    by (simp add: DayWithinYear_def DayFromYear_Suc)
qed

lemma day_in_year_cases:
  fixes w l :: int
  assumes "0 \<le> w" and "w < 365 + l"
  obtains "w < 31" | "31 \<le> w" "w < 59 + l" | "59 + l \<le> w" "w < 90 + l"
    | "90 + l \<le> w" "w < 120 + l" | "120 + l \<le> w" "w < 151 + l"
    | "151 + l \<le> w" "w < 181 + l" | "181 + l \<le> w" "w < 212 + l"
    | "212 + l \<le> w" "w < 243 + l" | "243 + l \<le> w" "w < 273 + l"
    | "273 + l \<le> w" "w < 304 + l" | "304 + l \<le> w" "w < 334 + l"
    | "334 + l \<le> w" "w < 365 + l"
  using assms by linarith

lemma fields_valid:
  "0 \<le> MonthFromTime t" "MonthFromTime t \<le> 11"
  "1 \<le> DateFromTime t"
  "DateFromTime t \<le> DaysInMonth (YearFromTime t) (MonthFromTime t)"
  "month_start (YearFromTime t) (MonthFromTime t) + DateFromTime t - 1 = DayWithinYear t"
proof -
  define l :: int where "l = (if DaysInYear (YearFromTime t) = 366 then 1 else 0)"
  define w where "w = DayWithinYear t"
  have l: "l = 0 \<or> l = 1" by (simp add: l_def)
  have D: "DaysInYear (YearFromTime t) = 365 + l" by (simp add: l_def DaysInYear_def)
  have w: "0 \<le> w" "w < 365 + l"
    using DayWithinYear_range [of t] by (simp_all add: w_def D)
  note M = MonthFromTime_def [of t, unfolded Let_def InLeapYear_def, folded l_def w_def]
  note T = DateFromTime_def [of t, unfolded Let_def InLeapYear_def, folded l_def w_def]
  note S = month_start_def [of "YearFromTime t", unfolded Let_def, folded l_def]
  note N = DaysInMonth_def [of "YearFromTime t"]
  show "0 \<le> MonthFromTime t" and "MonthFromTime t \<le> 11"
    by (simp_all add: M)
  from w show "1 \<le> DateFromTime t"
    using l w by (cases rule: day_in_year_cases) (auto simp add: M T)
  from w show "DateFromTime t \<le> DaysInMonth (YearFromTime t) (MonthFromTime t)"
    using l w by (cases rule: day_in_year_cases) (auto simp add: M T N l_def)
  from w show "month_start (YearFromTime t) (MonthFromTime t) + DateFromTime t - 1
               = DayWithinYear t"
    using l w by (cases rule: day_in_year_cases) (auto simp add: M T S w_def [symmetric])
qed

lemma MakeDay_of_fields:
  "MakeDay (YearFromTime t) (MonthFromTime t) (DateFromTime t + k) = Day t + k"
proof -
  have "MakeDay (YearFromTime t) (MonthFromTime t) (DateFromTime t + k)
        = DayFromYear (YearFromTime t)
          + (month_start (YearFromTime t) (MonthFromTime t) + DateFromTime t - 1) + k"
    using fields_valid(1,2) [of t]
    by (simp add: MakeDay_def Let_def div_pos_pos_trivial mod_pos_pos_trivial)
  then show ?thesis by (simp add: fields_valid(5) DayWithinYear_def)
qed


lemma msPerDay_pos: "0 < msPerDay"
  by (simp add: msPerDay_def)

lemma TimeFromYear_mono: "a \<le> b \<Longrightarrow> TimeFromYear a \<le> TimeFromYear b"
  using DayFromYear_mono [of a b] by (simp add: TimeFromYear_def msPerDay_def)

lemma YearFromTime_ge:
  assumes "TimeFromYear a \<le> t"
  shows "a \<le> YearFromTime t"
proof (rule ccontr)
  assume "\<not> a \<le> YearFromTime t"
  then have "YearFromTime t + 1 \<le> a" by simp
  then have "TimeFromYear (YearFromTime t + 1) \<le> TimeFromYear a" by (rule TimeFromYear_mono)
  with assms YearFromTime_range(2) [of t] show False by simp
qed

lemma YearFromTime_less:
  assumes "t < TimeFromYear b"
  shows "YearFromTime t < b"
proof (rule ccontr)
  assume "\<not> YearFromTime t < b"
  then have "b \<le> YearFromTime t" by simp
  then have "TimeFromYear b \<le> TimeFromYear (YearFromTime t)" by (rule TimeFromYear_mono)
  with assms YearFromTime_range(1) [of t] show False by simp
qed

lemma Day_midnight: "Day (MakeDate d 0) = d"
  using Day_MakeDate [OF order_refl msPerDay_pos] .

lemma TimeWithinDay_midnight: "TimeWithinDay (MakeDate d 0) = 0"
  by (simp add: TimeWithinDay_def MakeDate_def)

lemma midnight_fields:
  "YearFromTime (MakeDate (Day t) 0) = YearFromTime t"
  "MonthFromTime (MakeDate (Day t) 0) = MonthFromTime t"
  "DateFromTime (MakeDate (Day t) 0) = DateFromTime t"
proof -
  have e: "MakeDay (YearFromTime t) (MonthFromTime t) (DateFromTime t) = Day t"
    using MakeDay_of_fields [of t 0] by simp
  note F = fields_of_MakeDay [OF fields_valid(1-4) [of t] order_refl msPerDay_pos, unfolded e]
  show "YearFromTime (MakeDate (Day t) 0) = YearFromTime t" by (rule F(1))
  show "MonthFromTime (MakeDate (Day t) 0) = MonthFromTime t" by (rule F(2))
  show "DateFromTime (MakeDate (Day t) 0) = DateFromTime t" by (rule F(3))
qed

lemma midnight_in_year:
  "TimeFromYear (YearFromTime t) \<le> MakeDate (Day t) 0"
  "MakeDate (Day t) 0 < TimeFromYear (YearFromTime t + 1)"
  using YearFromTime_range [of "MakeDate (Day t) 0"] by (simp_all add: midnight_fields)

lemma month_start_bounds: "0 \<le> month_start y mn" "month_start y mn \<le> 335"
  by (simp_all add: month_start_def Let_def)

lemma DaysInMonth_le: "DaysInMonth y mn \<le> 31"
  by (simp add: DaysInMonth_def)

section \<open>Profit rows\<close>

lemma load_DAY_net:
  assumes "load_DAY srv raw = Some rows" and "r \<in> set rows"
  shows "netProfit r = grossProfit r - expenses r"
  using assms unfolding load_DAY_def Let_def
  by (auto split: if_splits option.splits)

lemma load_MONTH_net:
  assumes "load_MONTH srv raw = Some rows" and "r \<in> set rows"
  shows "netProfit r = grossProfit r - expenses r"
  using assms unfolding load_MONTH_def Let_def
  by (auto split: if_splits option.splits)

lemma load_YEAR_net:
  assumes "load_YEAR srv raw = Some rows" and "r \<in> set rows"
  shows "netProfit r = grossProfit r - expenses r"
  using assms unfolding load_YEAR_def Let_def
  by (auto split: if_splits option.splits)

text \<open>
  C1. Every row that \<open>load\<close> writes, in day, month or year mode, has its net profit equal
  to its gross profit minus its expenses: the three fields are set together, the third
  from the other two.
\<close>

theorem net_profit_is_gross_minus_expenses:
  assumes "ProfitManagementPage_load srv raw = Some rows" and "r \<in> set rows"
  shows "netProfit r = grossProfit r - expenses r"
  using assms load_DAY_net load_MONTH_net load_YEAR_net
  unfolding ProfitManagementPage_load_def
  by (cases "form_mode raw") auto

theorem net_profit_is_gross_minus_expenses_witness:
  "ProfitManagementPage_load may_backend
     \<lparr>form_mode = DAY, form_date = ''2024-05-03'', form_month = 5, form_year = 2024\<rparr>
   = Some [\<lparr>label = ''2024-05-03'', fromDate = ''2024-05-03'', toDate = ''2024-05-03'',
            grossProfit = 15, expenses = 8, netProfit = 7\<rparr>]
   \<and> (7::int) = 15 - 8"
proof -
  let ?raw = "\<lparr>form_mode = DAY, form_date = ''2024-05-03'', form_month = 5, form_year = 2024\<rparr>"
  let ?row = "\<lparr>label = ''2024-05-03'', fromDate = ''2024-05-03'', toDate = ''2024-05-03'',
            grossProfit = 15::int, expenses = 8, netProfit = 7\<rparr>"
  have a: "ProfitManagementPage_load may_backend ?raw = Some [?row]" by code_simp
  have b: "?row \<in> set [?row]" by simp
  from net_profit_is_gross_minus_expenses [OF a b] a show ?thesis by simp
qed

section \<open>Month rows\<close>

lemma those_map_Some: "those xs = Some ys \<Longrightarrow> xs = map Some ys"
  by (induction xs arbitrary: ys) (auto split: option.splits)

lemma forkJoin_length: "forkJoin reqs = Some ys \<Longrightarrow> length ys = length reqs"
  unfolding forkJoin_def by (auto split: if_splits dest: those_map_Some)

lemma forkJoin_results: "forkJoin reqs = Some ys \<Longrightarrow> reqs = map Some ys"
  unfolding forkJoin_def by (auto split: if_splits dest: those_map_Some)

lemma map_upto_shift: "map (\<lambda>i. g (i + 1)) [a..b] = map g [a + 1..b + 1]"
proof (induction a b rule: upto.induct)
  case (1 i j)
  show ?case
  proof (cases "i \<le> j")
    case True
    then have "[i..j] = i # [i + 1..j]" and "[i + 1..j + 1] = (i + 1) # [i + 1 + 1..j + 1]"
      by (simp_all add: upto_rec1)
    with 1 True show ?thesis by simp
  next
    case False
    then show ?thesis by simp
  qed
qed

lemma TimeClip_day:
  "- 100000000 \<le> d \<Longrightarrow> d \<le> 100000000 \<Longrightarrow> TimeClip (MakeDate d 0) = Some (MakeDate d 0)"
  by (simp add: TimeClip_def MakeDate_def msPerDay_def abs_le_iff)

lemma DayFromYear_clip:
  assumes "0 \<le> y" and "y \<le> 275760"
  shows "- 100000000 \<le> DayFromYear y" and "DayFromYear y \<le> 100000000"
  using DayFromYear_bounds [of y] assms by simp_all

lemma MakeDay_in_year:
  assumes "0 \<le> m" and "m \<le> 11"
  shows "MakeDay y m d = DayFromYear y + (month_start y m + d - 1)"
  using assms by (simp add: MakeDay_def Let_def div_pos_pos_trivial mod_pos_pos_trivial)

lemma MakeDay_day0:
  assumes "1 \<le> month" and "month \<le> 12"
  shows "MakeDay y month 0 = MakeDay y (month - 1) (DaysInMonth y (month - 1))"
proof -
  have a: "0 \<le> month - 1" and b: "month - 1 \<le> 11" using assms by simp_all
  have L: "DaysInYear y = 365 \<or> DaysInYear y = 366" by (simp add: DaysInYear_def)
  from a b show ?thesis
  proof (cases rule: month_cases)
    case 12
    then have m: "month = 12" by simp
    show ?thesis using L
      by (auto simp add: m MakeDay_def Let_def month_start_def DaysInMonth_def DayFromYear_Suc)
  qed (use L in \<open>auto simp add: MakeDay_def Let_def month_start_def DaysInMonth_def
        div_pos_pos_trivial mod_pos_pos_trivial\<close>)
qed

lemma last_day_of_month_clip:
  assumes "1 \<le> month" and "month \<le> 12"
  shows "Date_of_fields (Some y) (Some month) (Some 0)
         = TimeClip (MakeDate (MakeDay (MakeFullYear y) (month - 1)
                      (DaysInMonth (MakeFullYear y) (month - 1))) 0)"
  by (simp add: Date_of_fields_def Let_def MakeDay_day0 [OF assms])

lemma TimeClip_Some: "TimeClip t = Some u \<Longrightarrow> u = t"
  by (simp add: TimeClip_def split: if_splits)

lemma daysInMonth_some:
  assumes "1 \<le> month" and "month \<le> 12"
    and "daysInMonth (Some y) (Some month) = Some n"
  shows "n = DaysInMonth (MakeFullYear y) (month - 1)"
    "endOfMonth y month = iso_label (MakeFullYear y) month n"
proof -
  let ?y = "MakeFullYear y"
  let ?t = "MakeDate (MakeDay ?y (month - 1) (DaysInMonth ?y (month - 1))) 0"
  have m: "0 \<le> month - 1" "month - 1 \<le> 11" using assms(1,2) by simp_all
  have d: "1 \<le> DaysInMonth ?y (month - 1)"
    "DaysInMonth ?y (month - 1) \<le> DaysInMonth ?y (month - 1)"
    by (simp_all add: DaysInMonth_def)
  note F = fields_of_MakeDay [OF m d order_refl msPerDay_pos]
  from assms(3) obtain u where u: "TimeClip ?t = Some u"
    unfolding daysInMonth_def last_day_of_month_clip [OF assms(1,2)] getDate_def
    by (cases "TimeClip ?t") simp_all
  have c: "TimeClip ?t = Some ?t" using u TimeClip_Some [OF u] by simp
  have D: "Date_of_fields (Some y) (Some month) (Some 0) = Some ?t"
    by (simp only: last_day_of_month_clip [OF assms(1,2)] c)
  from assms(3) show n: "n = DaysInMonth ?y (month - 1)"
    unfolding daysInMonth_def D getDate_def by (simp add: F)
  show "endOfMonth y month = iso_label ?y month n"
    unfolding endOfMonth_def D toIsoDate_def Let_def
      getDate_def getMonth_def getFullYear_def iso_label_def n
    by (simp add: F String_num_def num_add_def pad2_def)
qed

text \<open>Inside the range of time values the day exists, so \<open>daysInMonth\<close> is a number.\<close>

lemma daysInMonth_eq:
  assumes "0 \<le> MakeFullYear y" and "MakeFullYear y \<le> 275759"
    and "1 \<le> month" and "month \<le> 12"
  shows "daysInMonth (Some y) (Some month) = Some (DaysInMonth (MakeFullYear y) (month - 1))"
proof -
  let ?y = "MakeFullYear y"
  let ?m = "month - 1"
  let ?d = "DaysInMonth ?y ?m"
  have m: "0 \<le> ?m" "?m \<le> 11" using assms by simp_all
  have d: "1 \<le> ?d" "?d \<le> DaysInMonth ?y ?m" by (simp_all add: DaysInMonth_def)
  note R = month_start_range [OF m d]
  have lo: "- 100000000 \<le> MakeDay ?y ?m ?d"
    using R(1) DayFromYear_clip(1) [of ?y] assms by (simp add: MakeDay_in_year [OF m])
  have "MakeDay ?y ?m ?d < DayFromYear (?y + 1)"
    using R(2) by (simp add: MakeDay_in_year [OF m] DayFromYear_Suc)
  then have hi: "MakeDay ?y ?m ?d \<le> 100000000"
    using DayFromYear_clip(2) [of "?y + 1"] assms by simp
  show ?thesis
    unfolding daysInMonth_def last_day_of_month_clip [OF assms(3,4)] getDate_def
    using fields_of_MakeDay(3) [OF m d order_refl msPerDay_pos]
    by (simp add: TimeClip_day [OF lo hi])
qed

lemma buildMonthRows_dates:
  assumes "daysInMonth (Some y) (Some month) = Some n"
  shows "(buildMonthRows y month :: 'n::zero ProfitRow list)
         = map (\<lambda>day. let date = String_int y @ ''-'' @ pad2 (Some month) @ ''-'' @ pad2 (Some day)
                       in \<lparr>label = date, fromDate = date, toDate = date,
                           grossProfit = 0, expenses = 0, netProfit = 0\<rparr>) [1..n]"
  unfolding buildMonthRows_def assms Let_def Array_from_length_def
  using map_upto_shift [of _ 0 "n - 1"] by (simp add: String_num_def)

lemma load_MONTH_rows:
  fixes srv :: "'n::{zero,plus,minus} Backend"
  assumes "load_MONTH srv raw = Some rows"
    and "form_year raw \<noteq> 0" and "1 \<le> form_month raw" and "form_month raw \<le> 12"
  shows "map label rows = map label (buildMonthRows (form_year raw) (form_month raw) :: 'n ProfitRow list)"
    "map fromDate rows = map fromDate (buildMonthRows (form_year raw) (form_month raw) :: 'n ProfitRow list)"
    "map toDate rows = map toDate (buildMonthRows (form_year raw) (form_month raw) :: 'n ProfitRow list)"
    "(buildMonthRows (form_year raw) (form_month raw) :: 'n ProfitRow list) \<noteq> []"
proof -
  let ?rows0 = "buildMonthRows (form_year raw) (form_month raw) :: 'n ProfitRow list"
  let ?f = "\<lambda>(r :: 'n ProfitRow, rep).
              let gross = report_profit rep;
                  expTotal = sum_amounts (filter (\<lambda>e. expense_date e = fromDate r)
                     (the (expensesQuery srv (case ?rows0 of [] \<Rightarrow> None | r # _ \<Rightarrow> Some (fromDate r))
                        (if ?rows0 = [] then None else Some (toDate (last ?rows0))))))
              in r\<lparr>grossProfit := gross, expenses := expTotal, netProfit := gross - expTotal\<rparr>"
  from assms obtain daily where
    d: "forkJoin (map (\<lambda>r. dailySalesReport srv (fromDate r)) ?rows0) = Some daily"
    and r: "rows = map ?f (zip ?rows0 daily)"
    unfolding load_MONTH_def Let_def by (auto split: option.splits if_splits)
  have len: "length ?rows0 = length daily" using forkJoin_length [OF d] by simp
  have z: "map fst (zip ?rows0 daily) = ?rows0" using len by (rule map_fst_zip)
  have "map label rows = map label (map fst (zip ?rows0 daily))"
    unfolding r by (simp add: Let_def split_def)
  then show "map label rows = map label ?rows0" by (simp only: z)
  have "map fromDate rows = map fromDate (map fst (zip ?rows0 daily))"
    unfolding r by (simp add: Let_def split_def)
  then show "map fromDate rows = map fromDate ?rows0" by (simp only: z)
  have "map toDate rows = map toDate (map fst (zip ?rows0 daily))"
    unfolding r by (simp add: Let_def split_def)
  then show "map toDate rows = map toDate ?rows0" by (simp only: z)
  from d show "?rows0 \<noteq> []" by (auto simp add: forkJoin_def split: if_splits)
qed

text \<open>
  C2. A valid year is one that \<open>new Date(year, month, 0)\<close> reads as written: any year
  except 0 to 99 (every four-digit year is one). For a valid year and a month from 1 to
  12, whenever month mode writes rows, \<open>daysInMonth(year, month)\<close> is the length of that
  month in the Gregorian calendar, leap-year February included; there are exactly that
  many rows, one per day in ascending order of the day; and the date of the last row is
  \<open>endOfMonth(year, month)\<close>.
\<close>

theorem month_rows_cover_the_month:
  fixes srv :: "'n::{zero,plus,minus} Backend"
  assumes "form_mode raw = MONTH" and "form_year raw = y" and "form_month raw = m"
    and "y < 0 \<or> 100 \<le> y" and "1 \<le> m" and "m \<le> 12"
    and "ProfitManagementPage_load srv raw = Some rows"
  shows "daysInMonth (Some y) (Some m) = Some (DaysInMonth y (m - 1))
       \<and> int (length rows) = DaysInMonth y (m - 1)
       \<and> map fromDate rows = map (iso_label y m) [1..DaysInMonth y (m - 1)]
       \<and> map label rows = map fromDate rows
       \<and> map toDate rows = map fromDate rows
       \<and> toDate (last rows) = endOfMonth y m"
proof -
  let ?n = "DaysInMonth y (m - 1)"
  have n: "1 \<le> ?n" by (simp add: DaysInMonth_def)
  have yy: "MakeFullYear y = y" using assms(4) by (auto simp add: MakeFullYear_def)
  have L: "load_MONTH srv raw = Some rows"
    using assms(1,7) by (simp add: ProfitManagementPage_load_def)
  have y0: "form_year raw \<noteq> 0" using assms(2,4) by auto
  note R = load_MONTH_rows [OF L y0, unfolded assms(2,3), OF assms(5,6)]
  have "daysInMonth (Some y) (Some m) \<noteq> None"
  proof
    assume "daysInMonth (Some y) (Some m) = None"
    then have "(buildMonthRows y m :: 'n ProfitRow list) = []"
      by (simp add: buildMonthRows_def Array_from_length_def)
    with R(4) show False by simp
  qed
  then obtain k where k: "daysInMonth (Some y) (Some m) = Some k" by auto
  note S = daysInMonth_some [OF assms(5,6) k, unfolded yy]
  have D: "daysInMonth (Some y) (Some m) = Some ?n" using k S(1) by simp
  note B = buildMonthRows_dates [OF D, where 'n = 'n]
  have f: "map fromDate rows = map (iso_label y m) [1..?n]"
    unfolding R(2) B by (simp add: Let_def iso_label_def)
  have l: "map label rows = map (iso_label y m) [1..?n]"
    unfolding R(1) B by (simp add: Let_def iso_label_def)
  have t: "map toDate rows = map (iso_label y m) [1..?n]"
    unfolding R(3) B by (simp add: Let_def iso_label_def)
  have len: "int (length rows) = ?n"
    using arg_cong [OF f, of length] n by simp
  have ne: "rows \<noteq> []" using len n by auto
  have "toDate (last rows) = last (map toDate rows)" using ne by (simp add: last_map)
  also have "\<dots> = iso_label y m ?n"
    unfolding t using n by (simp add: upto_rec2 [of 1 ?n])
  also have "\<dots> = endOfMonth y m" using S(2) S(1) by simp
  finally have e: "toDate (last rows) = endOfMonth y m" .
  from D len f l t e show ?thesis by simp
qed

text \<open>
  February 2024 has 29 rows and ends on \<open>2024-02-29\<close>; February of the year -4, a leap
  year before the common era, has 29 rows as well.
\<close>

theorem month_rows_cover_the_month_witness:
  "int (length (the (ProfitManagementPage_load may_backend
      \<lparr>form_mode = MONTH, form_date = [], form_month = 2, form_year = 2024\<rparr>))) = 29
   \<and> toDate (last (the (ProfitManagementPage_load may_backend
      \<lparr>form_mode = MONTH, form_date = [], form_month = 2, form_year = 2024\<rparr>)))
     = ''2024-02-29''
   \<and> int (length (the (ProfitManagementPage_load quiet_backend
      \<lparr>form_mode = MONTH, form_date = [], form_month = 2, form_year = - 4\<rparr>))) = 29"
proof -
  let ?raw = "\<lparr>form_mode = MONTH, form_date = [], form_month = 2, form_year = 2024\<rparr>"
  let ?old = "\<lparr>form_mode = MONTH, form_date = [], form_month = 2, form_year = - 4\<rparr>"
  have "ProfitManagementPage_load may_backend ?raw \<noteq> None" by code_simp
  then have a: "ProfitManagementPage_load may_backend ?raw
           = Some (the (ProfitManagementPage_load may_backend ?raw))"
    by simp
  have "ProfitManagementPage_load quiet_backend ?old \<noteq> None" by code_simp
  then have a': "ProfitManagementPage_load quiet_backend ?old
           = Some (the (ProfitManagementPage_load quiet_backend ?old))"
    by simp
  have v: "(2024::int) < 0 \<or> 100 \<le> (2024::int)" by simp
  have v': "(- 4::int) < 0 \<or> 100 \<le> (- 4::int)" by simp
  have b: "DaysInMonth 2024 (2 - 1) = 29" by code_simp
  have b': "DaysInMonth (- 4) (2 - 1) = 29" by code_simp
  have c: "endOfMonth 2024 2 = ''2024-02-29''" by code_simp
  note T = month_rows_cover_the_month [of ?raw 2024 2 may_backend, OF _ _ _ v _ _ a]
  note T' = month_rows_cover_the_month [of ?old "- 4" 2 quiet_backend, OF _ _ _ v' _ _ a']
  have 1: "int (length (the (ProfitManagementPage_load may_backend ?raw)))
           = DaysInMonth 2024 (2 - 1)"
    using T by simp
  have 2: "toDate (last (the (ProfitManagementPage_load may_backend ?raw))) = endOfMonth 2024 2"
    using T by simp
  have 3: "int (length (the (ProfitManagementPage_load quiet_backend ?old)))
           = DaysInMonth (- 4) (2 - 1)"
    using T' by simp
  from 1 2 3 show ?thesis unfolding b b' c by blast
qed

section \<open>Day offsets on ISO dates\<close>

lemma digit_val_range: "is_digit c \<Longrightarrow> 0 \<le> digit_val c \<and> digit_val c \<le> 9"
  by (auto simp add: is_digit_def digit_val_def)

lemma digit_char_val: "is_digit c \<Longrightarrow> digit_char (nat (digit_val c)) = c"
  by (simp add: is_digit_def digit_val_def digit_char_def nat_diff_distrib)

lemma digit_nat:
  assumes "is_digit c"
  shows "nat (digit_val c) < 10" "digit_char (nat (digit_val c)) = c"
    "digit_val c = int (nat (digit_val c))"
proof -
  from digit_val_range [OF assms] show "nat (digit_val c) < 10" by arith
  show "digit_char (nat (digit_val c)) = c" using assms by (rule digit_char_val)
  from digit_val_range [OF assms] show "digit_val c = int (nat (digit_val c))" by simp
qed

lemma string_of_nat_digit: "n < 10 \<Longrightarrow> string_of_nat n = [digit_char n]"
  by (simp add: string_of_nat.simps)

lemma string_of_nat_step:
  "0 < q \<Longrightarrow> r < 10 \<Longrightarrow> string_of_nat (10 * q + r) = string_of_nat q @ [digit_char r]"
  by (subst string_of_nat.simps) simp

lemma digit_char_0: "digit_char 0 = CHR ''0''"
  by code_simp

lemma String_int_of_nat: "String_int (int n) = string_of_nat n"
  by (simp add: String_int_def)

lemma String_int_two_digits:
  assumes "is_digit a" and "is_digit b"
  shows "padStart2 (String_int (digits_val [a, b])) = [a, b]"
proof -
  define x where "x = nat (digit_val a)"
  define y where "y = nat (digit_val b)"
  have x: "x < 10" "digit_char x = a" "digit_val a = int x"
    using digit_nat [OF assms(1)] by (simp_all add: x_def)
  have y: "y < 10" "digit_char y = b" "digit_val b = int y"
    using digit_nat [OF assms(2)] by (simp_all add: y_def)
  have v: "digits_val [a, b] = int (10 * x + y)"
    by (simp add: digits_val_def x(3) y(3))
  have S: "String_int (digits_val [a, b]) = string_of_nat (10 * x + y)"
    unfolding v by (rule String_int_of_nat)
  show ?thesis
  proof (cases "x = 0")
    case True
    then have "a = CHR ''0''" using x(2) digit_char_0 by simp
    then show ?thesis
      unfolding S using True y by (simp add: string_of_nat_digit padStart2_def)
  next
    case False
    then show ?thesis
      unfolding S using x y
      by (simp add: string_of_nat_step string_of_nat_digit padStart2_def)
  qed
qed

lemma String_int_four_digits:
  assumes "is_digit a" and "is_digit b" and "is_digit c" and "is_digit d"
    and "1000 \<le> digits_val [a, b, c, d]"
  shows "String_int (digits_val [a, b, c, d]) = [a, b, c, d]"
proof -
  define x where "x = nat (digit_val a)"
  define y where "y = nat (digit_val b)"
  define z where "z = nat (digit_val c)"
  define w where "w = nat (digit_val d)"
  have x: "x < 10" "digit_char x = a" "digit_val a = int x"
    using digit_nat [OF assms(1)] by (simp_all add: x_def)
  have y: "y < 10" "digit_char y = b" "digit_val b = int y"
    using digit_nat [OF assms(2)] by (simp_all add: y_def)
  have z: "z < 10" "digit_char z = c" "digit_val c = int z"
    using digit_nat [OF assms(3)] by (simp_all add: z_def)
  have w: "w < 10" "digit_char w = d" "digit_val d = int w"
    using digit_nat [OF assms(4)] by (simp_all add: w_def)
  have v: "digits_val [a, b, c, d] = int (10 * (10 * (10 * x + y) + z) + w)"
    by (simp add: digits_val_def x(3) y(3) z(3) w(3))
  have x0: "0 < x" using assms(5) y(1) z(1) w(1) unfolding v by (cases "x = 0") simp_all
  have "String_int (digits_val [a, b, c, d])
        = string_of_nat (10 * (10 * (10 * x + y) + z) + w)"
    unfolding v by (rule String_int_of_nat)
  also have "\<dots> = [digit_char x, digit_char y, digit_char z, digit_char w]"
  proof -
    have s1: "string_of_nat (10 * x + y) = [digit_char x, digit_char y]"
      using string_of_nat_step [OF x0 y(1)] by (simp only: string_of_nat_digit [OF x(1)] append.simps)
    have q2: "0 < 10 * x + y" using x0 by simp
    have s2: "string_of_nat (10 * (10 * x + y) + z) = [digit_char x, digit_char y, digit_char z]"
      using string_of_nat_step [OF q2 z(1)] by (simp only: s1 append.simps)
    have q3: "0 < 10 * (10 * x + y) + z" using x0 by simp
    show ?thesis
      using string_of_nat_step [OF q3 w(1)] by (simp only: s2 append.simps)
  qed
  finally show ?thesis by (simp add: x(2) y(2) z(2) w(2))
qed

lemma iso_fields_shape:
  assumes "iso_fields s = Some (y, m, d)"
  obtains y1 y2 y3 y4 m1 m2 d1 d2 where
    "s = [y1, y2, y3, y4, CHR ''-'', m1, m2, CHR ''-'', d1, d2]"
    "is_digit y1" "is_digit y2" "is_digit y3" "is_digit y4"
    "is_digit m1" "is_digit m2" "is_digit d1" "is_digit d2"
    "y = digits_val [y1, y2, y3, y4]" "m = digits_val [m1, m2]" "d = digits_val [d1, d2]"
  using assms unfolding iso_fields_def
  by (auto split: list.splits if_splits)

lemma TimeClip_in_years:
  assumes "TimeFromYear a \<le> t" and "t < TimeFromYear b" and "0 \<le> a" and "b \<le> 275760"
  shows "TimeClip t = Some t"
proof -
  have a0: "a \<le> 275760" 
  proof (rule ccontr)
    assume "\<not> a \<le> 275760"
    then have "b \<le> a" using assms(4) by simp
    then have "DayFromYear b \<le> DayFromYear a" by (rule DayFromYear_mono)
    then show False using assms(1,2) by (simp add: TimeFromYear_def msPerDay_def)
  qed
  have b0: "0 \<le> b"
  proof (rule ccontr)
    assume "\<not> 0 \<le> b"
    then have "b \<le> a" using assms(3) by simp
    then have "DayFromYear b \<le> DayFromYear a" by (rule DayFromYear_mono)
    then show False using assms(1,2) by (simp add: TimeFromYear_def msPerDay_def)
  qed
  have "- 100000000 \<le> DayFromYear a" using DayFromYear_clip(1) [OF assms(3) a0] .
  then have lo: "- 8640000000000000 \<le> t"
    using assms(1) by (simp add: TimeFromYear_def msPerDay_def)
  have "DayFromYear b \<le> 100000000" using DayFromYear_clip(2) [OF b0 assms(4)] .
  then have hi: "t \<le> 8640000000000000"
    using assms(2) by (simp add: TimeFromYear_def msPerDay_def)
  from lo hi show ?thesis by (simp add: TimeClip_def abs_le_iff)
qed

lemma MakeDate_in_year:
  assumes "0 \<le> m" and "m \<le> 11" and "1 \<le> d" and "d \<le> DaysInMonth y m"
  shows "TimeFromYear y \<le> MakeDate (MakeDay y m d) 0"
    "MakeDate (MakeDay y m d) 0 < TimeFromYear (y + 1)"
proof -
  let ?t = "MakeDate (MakeDay y m d) 0"
  have Y: "YearFromTime ?t = y"
    using fields_of_MakeDay(1) [OF assms order_refl msPerDay_pos] .
  from YearFromTime_range [of ?t] show "TimeFromYear y \<le> ?t" "?t < TimeFromYear (y + 1)"
    by (simp_all add: Y)
qed

lemma digits_val4_range:
  assumes "is_digit a" and "is_digit b" and "is_digit c" and "is_digit d"
  shows "0 \<le> digits_val [a, b, c, d]" "digits_val [a, b, c, d] \<le> 9999"
  using digit_val_range [OF assms(1)] digit_val_range [OF assms(2)]
    digit_val_range [OF assms(3)] digit_val_range [OF assms(4)]
  by (simp_all add: digits_val_def)

lemma Date_parse_iso:
  assumes "iso_fields s = Some (y, m, d)"
    and "1 \<le> m" and "m \<le> 12" and "1 \<le> d" and "d \<le> DaysInMonth y (m - 1)"
  shows "Date_parse (s @ ''T00:00:00Z'') = Some (MakeDate (MakeDay y (m - 1) d) 0)"
    "Date_parse (s @ ''T00:00:00'') = Some (MakeDate (MakeDay y (m - 1) d) 0)"
    "0 \<le> y" "y \<le> 9999"
proof -
  from assms(1) obtain y1 y2 y3 y4 m1 m2 d1 d2 where
    s: "s = [y1, y2, y3, y4, CHR ''-'', m1, m2, CHR ''-'', d1, d2]"
    and dg: "is_digit y1" "is_digit y2" "is_digit y3" "is_digit y4"
    and y: "y = digits_val [y1, y2, y3, y4]"
    by (rule iso_fields_shape)
  from digits_val4_range [OF dg] show y0: "0 \<le> y" and y9: "y \<le> 9999" by (simp_all add: y)
  have len: "length s = 10" by (simp add: s)
  have m: "0 \<le> m - 1" "m - 1 \<le> 11" using assms(2,3) by simp_all
  note R = MakeDate_in_year [OF m assms(4,5)]
  have "y + 1 \<le> 275760" using y9 by simp
  then have C: "TimeClip (MakeDate (MakeDay y (m - 1) d) 0) = Some (MakeDate (MakeDay y (m - 1) d) 0)"
    using TimeClip_in_years [OF R y0] by simp
  show "Date_parse (s @ ''T00:00:00Z'') = Some (MakeDate (MakeDay y (m - 1) d) 0)"
    unfolding Date_parse_def using len assms by (simp add: C)
  show "Date_parse (s @ ''T00:00:00'') = Some (MakeDate (MakeDay y (m - 1) d) 0)"
    unfolding Date_parse_def using len assms by (simp add: C)
qed

lemma MakeDate_Day: "MakeDate (Day t + k) (TimeWithinDay t) = t + k * msPerDay"
  by (simp add: MakeDate_def Day_def TimeWithinDay_def algebra_simps)

lemma setUTCDate_add:
  "setUTCDate (Some t) (num_add (getUTCDate (Some t)) (Some k)) = TimeClip (t + k * msPerDay)"
  by (simp add: setUTCDate_def getUTCDate_def num_add_def MakeDay_of_fields MakeDate_Day)

lemma addDaysIso_eq:
  assumes "Date_parse (s @ ''T00:00:00Z'') = Some t"
  shows "addDaysIso s k = toIsoDate (TimeClip (t + k * msPerDay))"
  unfolding addDaysIso_def assms setUTCDate_add toIsoDate_def Let_def
  by (simp add: getUTCFullYear_def getUTCMonth_def getUTCDate_def
      getFullYear_def getMonth_def getDate_def)

lemma toIsoDate_fields:
  assumes "0 \<le> m" and "m \<le> 11" and "1 \<le> d" and "d \<le> DaysInMonth y m"
  shows "toIsoDate (Some (MakeDate (MakeDay y m d) 0))
         = String_int y @ ''-'' @ padStart2 (String_int (m + 1)) @ ''-'' @ padStart2 (String_int d)"
  unfolding toIsoDate_def Let_def getFullYear_def getMonth_def getDate_def
  by (simp add: fields_of_MakeDay [OF assms order_refl msPerDay_pos] String_num_def num_add_def)

text \<open>
  C10, amended. For every well-formed ISO date whose year is 1000 or later,
  \<open>addDaysIso(d, 0)\<close> is \<open>d\<close>; and one day after 28 February is 29 February in 2024 and
  1 March in 2023.
\<close>

theorem addDaysIso_zero_is_identity:
  assumes "is_iso_date s" and "1000 \<le> iso_year s"
  shows "addDaysIso s 0 = s
       \<and> addDaysIso ''2024-02-28'' 1 = ''2024-02-29''
       \<and> addDaysIso ''2023-02-28'' 1 = ''2023-03-01''"
proof -
  from assms(1) obtain y m d where f: "iso_fields s = Some (y, m, d)"
    and v: "1 \<le> m" "m \<le> 12" "1 \<le> d" "d \<le> DaysInMonth y (m - 1)"
    unfolding is_iso_date_def by (auto split: option.splits)
  from f obtain y1 y2 y3 y4 m1 m2 d1 d2 where
    s: "s = [y1, y2, y3, y4, CHR ''-'', m1, m2, CHR ''-'', d1, d2]"
    and dg: "is_digit y1" "is_digit y2" "is_digit y3" "is_digit y4"
      "is_digit m1" "is_digit m2" "is_digit d1" "is_digit d2"
    and y: "y = digits_val [y1, y2, y3, y4]" and m: "m = digits_val [m1, m2]"
    and d: "d = digits_val [d1, d2]"
    by (rule iso_fields_shape)
  let ?t = "MakeDate (MakeDay y (m - 1) d) 0"
  have y1000: "1000 \<le> y" using assms(2) f by (simp add: iso_year_def)
  have m1: "0 \<le> m - 1" "m - 1 \<le> 11" using v by simp_all
  note P = Date_parse_iso [OF f v]
  have C: "TimeClip ?t = Some ?t"
    using TimeClip_in_years [OF MakeDate_in_year [OF m1 v(3,4)] P(3)] P(4) by simp
  have "addDaysIso s 0 = toIsoDate (Some ?t)"
    using addDaysIso_eq [OF P(1), of 0] by (simp add: C)
  also have "\<dots> = String_int y @ ''-'' @ padStart2 (String_int m) @ ''-'' @ padStart2 (String_int d)"
    using toIsoDate_fields [OF m1 v(3,4)] by simp
  also have "\<dots> = s"
    using String_int_four_digits [OF dg(1-4)] y1000
      String_int_two_digits [OF dg(5,6)] String_int_two_digits [OF dg(7,8)]
    by (simp add: y m d s)
  finally have a: "addDaysIso s 0 = s" .
  have b: "addDaysIso ''2024-02-28'' 1 = ''2024-02-29''" by code_simp
  have c: "addDaysIso ''2023-02-28'' 1 = ''2023-03-01''" by code_simp
  from a b c show ?thesis by simp
qed

theorem addDaysIso_zero_is_identity_witness:
  "addDaysIso ''2024-02-29'' 0 = ''2024-02-29''"
proof -
  have a: "is_iso_date ''2024-02-29''" by code_simp
  have b: "1000 \<le> iso_year ''2024-02-29''" by code_simp
  from addDaysIso_zero_is_identity [OF a b] show ?thesis by simp
qed

text \<open>
  C10, as stated, for every well-formed ISO date: the year is printed without padding, so
  a date of the year 999 comes back one character shorter.
\<close>

theorem addDaysIso_drops_leading_zeros_of_year:
  "is_iso_date ''0999-12-31'' \<and> addDaysIso ''0999-12-31'' 0 = ''999-12-31''"
  by code_simp

section \<open>Rolling seven-day series\<close>

lemma is_digit_not_space: "is_digit c \<Longrightarrow> \<not> is_space c"
  by (auto simp add: is_digit_def is_space_def)

lemma trim_iso:
  assumes "iso_fields s = Some (y, m, d)"
  shows "trim s = s"
proof -
  from assms obtain y1 y2 y3 y4 m1 m2 d1 d2 where
    s: "s = [y1, y2, y3, y4, CHR ''-'', m1, m2, CHR ''-'', d1, d2]"
    and dg: "is_digit y1" "is_digit d2"
    by (rule iso_fields_shape)
  show ?thesis
    using is_digit_not_space [OF dg(1)] is_digit_not_space [OF dg(2)]
    by (simp add: trim_def s)
qed

lemma Date_parse_fields:
  assumes "Date_parse (s @ ''T00:00:00Z'') = Some t"
  obtains y m d where "iso_fields s = Some (y, m, d)"
    "1 \<le> m" "m \<le> 12" "1 \<le> d" "d \<le> DaysInMonth y (m - 1)"
proof -
  have e: "drop 10 (s @ ''T00:00:00Z'') = ''T00:00:00Z'' \<Longrightarrow> length s = 10"
  proof -
    assume a: "drop 10 (s @ ''T00:00:00Z'') = ''T00:00:00Z''"
    have "length (drop 10 (s @ ''T00:00:00Z'')) = length s + 10 - 10" by simp
    then show "length s = 10" unfolding a by simp
  qed
  have n: "drop 10 (s @ ''T00:00:00Z'') \<noteq> ''T00:00:00''"
  proof
    assume a: "drop 10 (s @ ''T00:00:00Z'') = ''T00:00:00''"
    have "length (drop 10 (s @ ''T00:00:00Z'')) = length s + 10 - 10" by simp
    then have l: "length s = 9" unfolding a by simp
    then have "drop 10 (s @ ''T00:00:00Z'') = drop 1 ''T00:00:00Z''" by simp
    with a show False by simp
  qed
  from assms have d: "drop 10 (s @ ''T00:00:00Z'') = ''T00:00:00Z''"
    unfolding Date_parse_def using n by (simp split: if_splits)
  have t: "take 10 (s @ ''T00:00:00Z'') = s" using e [OF d] by simp
  from assms show ?thesis
    unfolding Date_parse_def t using that
    by (auto split: if_splits option.splits)
qed

lemma zip_results:
  "map f xs = map Some ys \<Longrightarrow>
   map (\<lambda>(x, y). h x y) (zip xs ys)
   = map (\<lambda>x. h x (case f x of None \<Rightarrow> dflt | Some r \<Rightarrow> r)) xs"
proof (induction xs arbitrary: ys)
  case Nil
  then show ?case by simp
next
  case (Cons x xs)
  then obtain z zs where ys: "ys = z # zs" by (cases ys) auto
  with Cons show ?case by simp
qed

lemma DayFromYear_0: "DayFromYear 0 = - 719528"
  by (simp add: DayFromYear_def)

lemma seven_labels:
  assumes "Date_parse (s @ ''T00:00:00Z'') = Some t"
  shows "map (\<lambda>i. addDaysIso s (i - 6)) (Array_from_length (Some 7))
         = map (\<lambda>k. toIsoDate (Some (t + k * msPerDay))) [- 6..0]"
proof -
  from assms obtain y m d where f: "iso_fields s = Some (y, m, d)"
    and v: "1 \<le> m" "m \<le> 12" "1 \<le> d" "d \<le> DaysInMonth y (m - 1)"
    by (rule Date_parse_fields)
  note P = Date_parse_iso [OF f v]
  have m1: "0 \<le> m - 1" "m - 1 \<le> 11" using v by simp_all
  have t: "t = MakeDate (MakeDay y (m - 1) d) 0" using P(1) assms by simp
  note R = MakeDate_in_year [OF m1 v(3,4), folded t]
  have "DayFromYear 0 \<le> DayFromYear y" using P(3) by (rule DayFromYear_mono)
  then have lo: "- 719528 * msPerDay \<le> t"
    using R(1) by (simp add: TimeFromYear_def DayFromYear_0 msPerDay_def)
  have "DayFromYear (y + 1) \<le> DayFromYear 10000" using P(4) by (intro DayFromYear_mono) simp
  moreover have "DayFromYear 10000 \<le> 100000000" by (simp add: DayFromYear_def)
  ultimately have hi: "t < 100000000 * msPerDay"
    using R(2) by (simp add: TimeFromYear_def msPerDay_def)
  have C: "TimeClip (t + k * msPerDay) = Some (t + k * msPerDay)" if "- 6 \<le> k" "k \<le> 0" for k
    using lo hi that by (simp add: TimeClip_def msPerDay_def abs_le_iff)
  have A: "addDaysIso s k = toIsoDate (Some (t + k * msPerDay))" if "- 6 \<le> k" "k \<le> 0" for k
    using addDaysIso_eq [OF assms, of k] C [OF that] by simp
  have "map (\<lambda>i. addDaysIso s (i - 6)) (Array_from_length (Some 7))
        = map (\<lambda>k. addDaysIso s k) (map (\<lambda>i. i - 6) [0..6])"
    by (simp add: Array_from_length_def)
  also have "map (\<lambda>i. i - 6) [0..6] = [- 6..(0::int)]" by code_simp
  also have "map (\<lambda>k. addDaysIso s k) [- 6..0]
             = map (\<lambda>k. toIsoDate (Some (t + k * msPerDay))) [- 6..0]"
    by (rule map_cong) (simp_all add: A)
  finally show ?thesis .
qed

lemma profit_series_result:
  fixes srv :: "'n::{zero,plus,minus} Backend"
  assumes "profit_series srv date to7 = Some out"
  shows "profit7DaysLabels out
         = map (\<lambda>i. addDaysIso date (i - 6)) (Array_from_length (Some 7))"
    "\<exists>expList. expensesQuery srv (Some (addDaysIso date (- 6))) (Some to7) = Some expList
        \<and> profit7DaysData out = map (single_day_net srv expList) (profit7DaysLabels out)"
proof -
  let ?dates = "map (\<lambda>i. addDaysIso date (i - 6)) (Array_from_length (Some 7))"
  from assms obtain report expList last7 where
    e: "expensesQuery srv (Some (addDaysIso date (- 6))) (Some to7) = Some expList"
    and l: "forkJoin (map (dailySalesReport srv) ?dates) = Some last7"
    and o: "profit7DaysLabels out = ?dates"
      "profit7DaysData out
       = map (\<lambda>(d, r). report_profit r - sum_amounts (filter (\<lambda>e. expense_date e = d) expList))
           (zip ?dates last7)"
    unfolding profit_series_def Let_def by (auto split: option.splits)
  show "profit7DaysLabels out = ?dates" by (rule o(1))
  have "profit7DaysData out = map (single_day_net srv expList) ?dates"
    unfolding o(2) single_day_net_def
    using zip_results [OF forkJoin_results [OF l]] by simp
  with e o(1) show "\<exists>expList. expensesQuery srv (Some (addDaysIso date (- 6))) (Some to7) = Some expList
        \<and> profit7DaysData out = map (single_day_net srv expList) (profit7DaysLabels out)"
    by auto
qed

lemma may_series_loaded:
  "ProfitDashboardPage_load may_backend ''2024-05-07'' = Some may_series"
  by code_simp

lemma digit_char_is_digit:
  assumes "k < 10"
  shows "is_digit (digit_char k)" "digit_val (digit_char k) = int k"
proof -
  have "48 + k < 256" using assms by simp
  then have e: "(of_char (digit_char k) :: nat) = 48 + k"
    by (simp add: digit_char_def)
  show "is_digit (digit_char k)" using assms by (simp add: is_digit_def e)
  show "digit_val (digit_char k) = int k" by (simp add: digit_val_def e)
qed

lemma div10_div10: "n div 10 div 10 = n div 100" "n div 100 div 10 = n div 1000" for n :: nat
  by (simp_all add: div_mult2_eq [symmetric])

lemma string_of_nat_4:
  assumes "1000 \<le> n" and "n \<le> 9999"
  shows "string_of_nat n
         = [digit_char (n div 1000), digit_char (n div 100 mod 10),
            digit_char (n div 10 mod 10), digit_char (n mod 10)]"
proof -
  have n1: "\<not> n < 10" using assms by simp
  have n2: "\<not> n div 10 < 10" using assms by (simp add: div_less_iff_less_mult)
  have n3: "\<not> n div 100 < 10" using assms by (simp add: div_less_iff_less_mult)
  have n4: "n div 1000 < 10" using assms by (simp add: div_less_iff_less_mult)
  have a: "string_of_nat n = string_of_nat (n div 10) @ [digit_char (n mod 10)]"
    using n1 by (subst string_of_nat.simps) simp
  have b: "string_of_nat (n div 10)
           = string_of_nat (n div 100) @ [digit_char (n div 10 mod 10)]"
    using n2 by (subst string_of_nat.simps) (simp add: div10_div10)
  have c: "string_of_nat (n div 100)
           = string_of_nat (n div 1000) @ [digit_char (n div 100 mod 10)]"
    using n3 by (subst string_of_nat.simps) (simp add: div10_div10)
  have d: "string_of_nat (n div 1000) = [digit_char (n div 1000)]"
    using n4 by (rule string_of_nat_digit)
  show ?thesis by (simp add: a b c d)
qed

lemma string_of_nat_2:
  assumes "n < 100"
  shows "padStart2 (string_of_nat n) = [digit_char (n div 10), digit_char (n mod 10)]"
proof (cases "n < 10")
  case True
  then show ?thesis
    by (simp add: string_of_nat_digit padStart2_def digit_char_0)
next
  case False
  then have "string_of_nat n = string_of_nat (n div 10) @ [digit_char (n mod 10)]"
    by (subst string_of_nat.simps) simp
  moreover have "n div 10 < 10" using assms by (simp add: div_less_iff_less_mult)
  then have "string_of_nat (n div 10) = [digit_char (n div 10)]"
    by (rule string_of_nat_digit)
  ultimately show ?thesis by (simp add: padStart2_def)
qed

lemma digits_val_2:
  assumes "n < 100"
  shows "digits_val [digit_char (n div 10), digit_char (n mod 10)] = int n"
proof -
  have k: "n div 10 < 10" using assms by (simp add: div_less_iff_less_mult)
  have "10 * (n div 10) + n mod 10 = n" by simp
  then have "int n = 10 * int (n div 10) + int (n mod 10)"
    by (metis of_nat_add of_nat_mult of_nat_numeral)
  then show ?thesis
    using k by (simp add: digits_val_def digit_char_is_digit(2))
qed

lemma digits_val_4:
  assumes "n \<le> 9999"
  shows "digits_val [digit_char (n div 1000), digit_char (n div 100 mod 10),
                     digit_char (n div 10 mod 10), digit_char (n mod 10)] = int n"
proof -
  have k: "n div 1000 < 10" using assms by (simp add: div_less_iff_less_mult)
  have e1: "10 * (n div 10) + n mod 10 = n" by simp
  have e2: "10 * (n div 100) + n div 10 mod 10 = n div 10"
    using mult_div_mod_eq [of 10 "n div 10"] by (simp add: div10_div10)
  have e3: "10 * (n div 1000) + n div 100 mod 10 = n div 100"
    using mult_div_mod_eq [of 10 "n div 100"] by (simp add: div10_div10)
  have "10 * (10 * (10 * (n div 1000) + n div 100 mod 10) + n div 10 mod 10) + n mod 10 = n"
    by (simp only: e1 e2 e3)
  then have "int n = 10 * (10 * (10 * int (n div 1000) + int (n div 100 mod 10))
                     + int (n div 10 mod 10)) + int (n mod 10)"
    by (metis of_nat_add of_nat_mult of_nat_numeral)
  then show ?thesis
    using k by (simp add: digits_val_def digit_char_is_digit(2))
qed

lemma iso_fields_format:
  assumes "1000 \<le> y" and "y \<le> 9999" and "0 \<le> m" and "m < 100" and "0 \<le> d" and "d < 100"
  shows "iso_fields (String_int y @ ''-'' @ padStart2 (String_int m) @ ''-''
                     @ padStart2 (String_int d)) = Some (y, m, d)"
proof -
  define a where "a = nat y"
  define b where "b = nat m"
  define c where "c = nat d"
  have y: "y = int a" "1000 \<le> a" "a \<le> 9999" using assms by (simp_all add: a_def)
  have m: "m = int b" "b < 100" using assms by (simp_all add: b_def)
  have d: "d = int c" "c < 100" using assms by (simp_all add: c_def)
  have k: "a div 1000 < 10" "b div 10 < 10" "c div 10 < 10"
    using y m d by (simp_all add: div_less_iff_less_mult)
  show ?thesis
    unfolding y(1) m(1) d(1) String_int_of_nat
      string_of_nat_4 [OF y(2,3)] string_of_nat_2 [OF m(2)] string_of_nat_2 [OF d(2)]
    using k digits_val_4 [OF y(3)] digits_val_2 [OF m(2)] digits_val_2 [OF d(2)]
    by (simp add: iso_fields_def digit_char_is_digit(1))
qed

lemma Date_parse_toIsoDate:
  assumes "TimeFromYear 1000 \<le> t" and "t < TimeFromYear 10000"
  shows "Date_parse (toIsoDate (Some t) @ ''T00:00:00Z'') = Some (MakeDate (Day t) 0)"
proof -
  let ?Y = "YearFromTime t"
  let ?M = "MonthFromTime t"
  let ?D = "DateFromTime t"
  note V = fields_valid(1-4) [of t]
  have Y: "1000 \<le> ?Y" "?Y \<le> 9999"
    using YearFromTime_ge [OF assms(1)] YearFromTime_less [OF assms(2)] by simp_all
  have D: "?D \<le> 31" using V(4) DaysInMonth_le [of ?Y ?M] by simp
  have s: "toIsoDate (Some t)
           = String_int ?Y @ ''-'' @ padStart2 (String_int (?M + 1)) @ ''-''
             @ padStart2 (String_int ?D)"
    by (simp add: toIsoDate_def Let_def getFullYear_def getMonth_def getDate_def
        String_num_def num_add_def)
  have f: "iso_fields (toIsoDate (Some t)) = Some (?Y, ?M + 1, ?D)"
    unfolding s using Y V(1,2,3) D by (intro iso_fields_format) simp_all
  have "Date_parse (toIsoDate (Some t) @ ''T00:00:00Z'')
        = Some (MakeDate (MakeDay ?Y (?M + 1 - 1) ?D) 0)"
    using V by (intro Date_parse_iso(1) [OF f]) simp_all
  then show ?thesis using MakeDay_of_fields [of t 0] by simp
qed

lemma seven_labels_parse_back:
  assumes "Date_parse (s @ ''T00:00:00Z'') = Some t"
    and "TimeFromYear 1000 \<le> t - 6 * msPerDay"
  shows "map (\<lambda>l. Date_parse (l @ ''T00:00:00Z''))
           (map (\<lambda>k. toIsoDate (Some (t + k * msPerDay))) [- 6..0])
         = map (\<lambda>k. Some (t + k * msPerDay)) [- 6..0]"
proof -
  from assms(1) obtain y m d where f: "iso_fields s = Some (y, m, d)"
    and v: "1 \<le> m" "m \<le> 12" "1 \<le> d" "d \<le> DaysInMonth y (m - 1)"
    by (rule Date_parse_fields)
  note P = Date_parse_iso [OF f v]
  have m1: "0 \<le> m - 1" "m - 1 \<le> 11" using v by simp_all
  have t: "t = MakeDate (MakeDay y (m - 1) d) 0" using P(1) assms(1) by simp
  note R = MakeDate_in_year [OF m1 v(3,4), folded t]
  have "TimeFromYear (y + 1) \<le> TimeFromYear 10000" using P(4) by (intro TimeFromYear_mono) simp
  then have hi: "t < TimeFromYear 10000" using R(2) by simp
  have mid: "MakeDate (Day (t + k * msPerDay)) 0 = t + k * msPerDay" for k
  proof -
    have "t + k * msPerDay = MakeDate (MakeDay y (m - 1) d + k) 0"
      by (simp add: t MakeDate_def algebra_simps)
    then show ?thesis by (simp add: Day_midnight)
  qed
  have one: "Date_parse (toIsoDate (Some (t + k * msPerDay)) @ ''T00:00:00Z'')
             = Some (t + k * msPerDay)" if "- 6 \<le> k" "k \<le> 0" for k
  proof -
    have a: "TimeFromYear 1000 \<le> t + k * msPerDay"
      using assms(2) that(1) msPerDay_pos by (simp add: msPerDay_def)
    have b: "t + k * msPerDay < TimeFromYear 10000"
      using hi that(2) by (simp add: msPerDay_def)
    show ?thesis using Date_parse_toIsoDate [OF a b] by (simp add: mid)
  qed
  show ?thesis unfolding map_map
    by (rule map_cong) (simp_all add: one)
qed

lemma old_series_loaded:
  "ProfitDashboardPage_load old_backend ''0999-12-31'' = Some old_series"
  by code_simp

text \<open>
  C3, amended. For an anchor that is a well-formed ISO date from 7 January 1000 on, at
  midnight \<open>t\<close>, both pages (the dashboard when the user may view reports) produce seven
  rows: their labels are the ISO dates of \<open>t\<close> minus six days up to \<open>t\<close>, in that order, and
  the value of a row is the single-day net profit of its label, over the expenses the
  one expense request delivered. On the sample data the series anchored at 7 May 2024 is
  10, 20, 7, 0, 5, 30, 12.
\<close>

theorem rolling_seven_day_series:
  fixes srv :: "'n::{zero,plus,minus} Backend"
  assumes "Date_parse (d @ ''T00:00:00Z'') = Some t"
    and "TimeFromYear 1000 \<le> t - 6 * msPerDay"
    and "ProfitDashboardPage_load srv d = Some out
         \<or> DashboardPage_loadProfit s srv d = Some out"
  shows "length (profit7DaysLabels out) = 7 \<and> length (profit7DaysData out) = 7
       \<and> profit7DaysLabels out = map (\<lambda>k. toIsoDate (Some (t + k * msPerDay))) [- 6..0]
       \<and> map (\<lambda>l. Date_parse (l @ ''T00:00:00Z'')) (profit7DaysLabels out)
           = map (\<lambda>k. Some (t + k * msPerDay)) [- 6..0]
       \<and> (\<exists>expList to7.
             (to7 = d \<or> to7 = addDaysIso d 0)
             \<and> expensesQuery srv (Some (addDaysIso d (- 6))) (Some to7) = Some expList
             \<and> profit7DaysData out = map (single_day_net srv expList) (profit7DaysLabels out))
       \<and> map_option profit7DaysLabels (ProfitDashboardPage_load may_backend ''2024-05-07'')
           = Some [''2024-05-01'', ''2024-05-02'', ''2024-05-03'', ''2024-05-04'',
                   ''2024-05-05'', ''2024-05-06'', ''2024-05-07'']
       \<and> map_option profit7DaysData (ProfitDashboardPage_load may_backend ''2024-05-07'')
           = Some [10, 20, 7, 0, 5, 30, 12]"
proof -
  from assms(1) obtain y m dd where f: "iso_fields d = Some (y, m, dd)"
    by (rule Date_parse_fields)
  have tr: "trim d = d" using f by (rule trim_iso)
  have ne: "d \<noteq> []" using f by (auto simp add: iso_fields_def)
  from assms(3) obtain to7 where to7: "to7 = d \<or> to7 = addDaysIso d 0"
    and ps: "profit_series srv d to7 = Some out"
    unfolding ProfitDashboardPage_load_def DashboardPage_loadProfit_def Let_def tr
    using ne by (auto split: if_splits)
  note R = profit_series_result [OF ps]
  have lab: "profit7DaysLabels out = map (\<lambda>k. toIsoDate (Some (t + k * msPerDay))) [- 6..0]"
    unfolding R(1) using assms(1) by (rule seven_labels)
  have pb: "map (\<lambda>l. Date_parse (l @ ''T00:00:00Z'')) (profit7DaysLabels out)
              = map (\<lambda>k. Some (t + k * msPerDay)) [- 6..0]"
    unfolding lab using assms(1,2) by (rule seven_labels_parse_back)
  from R(2) obtain expList where
    e: "expensesQuery srv (Some (addDaysIso d (- 6))) (Some to7) = Some expList"
    and dat: "profit7DaysData out = map (single_day_net srv expList) (profit7DaysLabels out)"
    by blast
  have l7: "length (profit7DaysLabels out) = 7" unfolding lab by simp
  then have d7: "length (profit7DaysData out) = 7" unfolding dat by simp
  have ex: "\<exists>expList to7.
             (to7 = d \<or> to7 = addDaysIso d 0)
             \<and> expensesQuery srv (Some (addDaysIso d (- 6))) (Some to7) = Some expList
             \<and> profit7DaysData out = map (single_day_net srv expList) (profit7DaysLabels out)"
    using to7 e dat by blast
  have x1: "map_option profit7DaysLabels (ProfitDashboardPage_load may_backend ''2024-05-07'')
           = Some [''2024-05-01'', ''2024-05-02'', ''2024-05-03'', ''2024-05-04'',
                   ''2024-05-05'', ''2024-05-06'', ''2024-05-07'']"
    by (simp add: may_series_loaded may_series_def)
  have x2: "map_option profit7DaysData (ProfitDashboardPage_load may_backend ''2024-05-07'')
           = Some [10, 20, 7, 0, 5, 30, 12]"
    by (simp add: may_series_loaded may_series_def)
  from l7 d7 lab pb ex x1 x2 show ?thesis by blast
qed

theorem rolling_seven_day_series_witness:
  "length (profit7DaysData may_series) = 7
   \<and> map (\<lambda>l. Date_parse (l @ ''T00:00:00Z'')) (profit7DaysLabels may_series)
     = map (\<lambda>k. Some (1715040000000 + k * msPerDay)) [- 6..0]"
proof -
  have a: "Date_parse (''2024-05-07'' @ ''T00:00:00Z'') = Some 1715040000000" by code_simp
  have b: "TimeFromYear 1000 \<le> 1715040000000 - 6 * msPerDay" by code_simp
  note T = rolling_seven_day_series [OF a b disjI1 [OF may_series_loaded]]
  from T have "length (profit7DaysData may_series) = 7" by blast
  moreover from T have "map (\<lambda>l. Date_parse (l @ ''T00:00:00Z'')) (profit7DaysLabels may_series)
     = map (\<lambda>k. Some (1715040000000 + k * msPerDay)) [- 6..0]" by blast
  ultimately show ?thesis by blast
qed

text \<open>
  C3, as stated, for every anchor date: for the anchor 31 December 999 the labels carry
  the year without padding, so the expense dated \<open>0999-12-28\<close> matches no label and the
  row of that day shows 0 where the single-day net profit is -8.
\<close>

theorem rolling_series_drops_expense_before_year_1000:
  "is_iso_date ''0999-12-31''
   \<and> map_option profit7DaysLabels (ProfitDashboardPage_load old_backend ''0999-12-31'')
     = Some [''999-12-25'', ''999-12-26'', ''999-12-27'', ''999-12-28'',
             ''999-12-29'', ''999-12-30'', ''999-12-31'']
   \<and> map_option profit7DaysData (ProfitDashboardPage_load old_backend ''0999-12-31'')
     = Some [0, 0, 0, 0, 0, 0, 0]
   \<and> single_day_net old_backend old_expenses ''0999-12-28'' = - 8"
proof -
  have a: "is_iso_date ''0999-12-31''" by code_simp
  have b: "single_day_net old_backend old_expenses ''0999-12-28'' = - 8" by code_simp
  from a b show ?thesis by (simp add: old_series_loaded old_series_def)
qed

section \<open>Inventory status\<close>

lemma startOfDay_eq:
  assumes "100 \<le> YearFromTime t"
  shows "startOfDay (Some t) = TimeClip (MakeDate (Day t) 0)"
proof -
  have e: "MakeDay (YearFromTime t) (MonthFromTime t) (DateFromTime t) = Day t"
    using MakeDay_of_fields [of t 0] by simp
  have "MakeFullYear (YearFromTime t) = YearFromTime t"
    using assms by (simp add: MakeFullYear_def)
  then show ?thesis
    by (simp add: startOfDay_def Date_of_fields_def getFullYear_def getMonth_def getDate_def
        Let_def e)
qed

lemma startOfDay_in_range:
  assumes "TimeFromYear 100 \<le> t" and "t < TimeFromYear 200000"
  shows "startOfDay (Some t) = Some (MakeDate (Day t) 0)"
proof -
  have lo: "100 \<le> YearFromTime t" using assms(1) by (rule YearFromTime_ge)
  have hi: "YearFromTime t < 200000" using assms(2) by (rule YearFromTime_less)
  have "TimeClip (MakeDate (Day t) 0) = Some (MakeDate (Day t) 0)"
    using TimeClip_in_years [OF midnight_in_year [of t]] lo hi by simp
  then show ?thesis by (simp add: startOfDay_eq [OF lo])
qed

lemma three_months_range:
  "DayFromYear (YearFromTime t) \<le> three_months_on t"
  "three_months_on t < DayFromYear (YearFromTime t + 2)"
proof -
  let ?Y = "YearFromTime t"
  let ?M = "MonthFromTime t"
  let ?D = "DateFromTime t"
  note V = fields_valid(1-4) [of t]
  have D: "1 \<le> ?D" "?D \<le> 31" using V(3,4) DaysInMonth_le [of ?Y ?M] by simp_all
  have Y1: "DayFromYear (?Y + 1) = DayFromYear ?Y + DaysInYear ?Y" by (rule DayFromYear_Suc)
  have Y2: "DayFromYear (?Y + 2) = DayFromYear (?Y + 1) + DaysInYear (?Y + 1)"
    using DayFromYear_Suc [of "?Y + 1"] by (simp add: add.assoc)
  note G = DaysInYear_ge [of ?Y] DaysInYear_ge [of "?Y + 1"]
  have S: "0 \<le> month_start y mn \<and> month_start y mn \<le> 335" for y mn
    using month_start_bounds [of y mn] by simp
  consider "?M + 3 \<le> 11" | "12 \<le> ?M + 3" by linarith
  then have "DayFromYear ?Y \<le> three_months_on t \<and> three_months_on t < DayFromYear (?Y + 2)"
  proof cases
    case 1
    then have e: "(?M + 3) div 12 = 0" "(?M + 3) mod 12 = ?M + 3"
      using V(1) by (simp_all add: div_pos_pos_trivial mod_pos_pos_trivial)
    have "three_months_on t = DayFromYear ?Y + month_start ?Y (?M + 3) + ?D - 1"
      by (simp add: three_months_on_def MakeDay_def Let_def e)
    then show ?thesis using S [of ?Y "?M + 3"] D Y1 Y2 G by simp
  next
    case 2
    have "?M + 3 = 12 + (?M - 9)" by simp
    moreover have "0 \<le> ?M - 9" "?M - 9 < 12" using 2 V(2) by simp_all
    ultimately have e: "(?M + 3) div 12 = 1" "(?M + 3) mod 12 = ?M - 9"
      by (metis add.commute add.right_neutral div_add_self1 div_pos_pos_trivial zero_neq_numeral,
          metis mod_add_self1 mod_pos_pos_trivial)
    have m: "month_start (?Y + 1) (?M - 9) \<le> 60"
      using 2 V(2) by (simp add: month_start_def Let_def)
    have "three_months_on t = DayFromYear (?Y + 1) + month_start (?Y + 1) (?M - 9) + ?D - 1"
      by (simp add: three_months_on_def MakeDay_def Let_def e)
    then show ?thesis using S [of "?Y + 1" "?M - 9"] m D Y1 Y2 G by simp
  qed
  then show "DayFromYear ?Y \<le> three_months_on t"
    "three_months_on t < DayFromYear (?Y + 2)" by simp_all
qed

lemma addMonths_today:
  assumes "TimeFromYear 100 \<le> t" and "t < TimeFromYear 200000"
  shows "addMonths (Some (MakeDate (Day t) 0)) 3 = Some (MakeDate (three_months_on t) 0)"
proof -
  let ?t0 = "MakeDate (Day t) 0"
  let ?t3 = "MakeDate (three_months_on t) 0"
  have lo: "100 \<le> YearFromTime t" using assms(1) by (rule YearFromTime_ge)
  have hi: "YearFromTime t < 200000" using assms(2) by (rule YearFromTime_less)
  have r: "TimeFromYear (YearFromTime t) \<le> ?t3" "?t3 < TimeFromYear (YearFromTime t + 2)"
    using three_months_range [of t]
    by (simp_all add: TimeFromYear_le_iff Day_midnight not_le [symmetric])
  have c: "TimeClip ?t3 = Some ?t3"
    using TimeClip_in_years [OF r] lo hi by simp
  have s: "setMonth (Some ?t0) (num_add (getMonth (Some ?t0)) (Some 3)) = Some ?t3"
    using c
    by (simp add: setMonth_def getMonth_def num_add_def midnight_fields
        TimeWithinDay_midnight three_months_on_def)
  have "TimeFromYear 100 \<le> ?t3"
    using r(1) TimeFromYear_mono [OF lo] by simp
  then have y3: "100 \<le> YearFromTime ?t3" by (rule YearFromTime_ge)
  have "startOfDay (Some ?t3) = Some ?t3"
    using startOfDay_eq [OF y3] c by (simp add: Day_midnight)
  then show ?thesis
    by (simp add: addMonths_def Let_def getTime_def s)
qed

lemma midnight_less_iff:
  "MakeDate a 0 < MakeDate b 0 \<longleftrightarrow> a < b" "MakeDate a 0 \<le> MakeDate b 0 \<longleftrightarrow> a \<le> b"
  by (simp_all add: MakeDate_def msPerDay_def)

lemma parseDateOnly_eq:
  "parseDateOnly newDate v = startOfDay (Some (expiry_instant newDate v))"
  by (auto simp add: parseDateOnly_def expiry_instant_def Let_def getTime_def
      split: option.splits)

lemma midnight_le: "MakeDate (Day t) 0 \<le> t"
  using int_div_bounds [of msPerDay t] msPerDay_pos
  by (simp add: MakeDate_def Day_def mult.commute)

lemma Day_lower: "- 8640000000000000 \<le> t \<Longrightarrow> - 100000000 \<le> Day t"
  using int_div_bounds [of 86400000 t] by (simp add: Day_def msPerDay_def)

lemma TimeClip_midnight:
  assumes "\<bar>t\<bar> \<le> 8640000000000000"
  shows "TimeClip (MakeDate (Day t) 0) = Some (MakeDate (Day t) 0)"
proof -
  have "- 100000000 \<le> Day t" using assms by (intro Day_lower) simp
  then have "- 8640000000000000 \<le> MakeDate (Day t) 0"
    by (simp add: MakeDate_def msPerDay_def)
  moreover have "MakeDate (Day t) 0 \<le> 8640000000000000"
    using midnight_le [of t] assms by simp
  ultimately show ?thesis by (simp add: TimeClip_def abs_le_iff)
qed

lemma startOfDay_plain:
  assumes "\<not> (0 \<le> YearFromTime t \<and> YearFromTime t \<le> 99)"
    and "\<bar>t\<bar> \<le> 8640000000000000"
  shows "startOfDay (Some t) = Some (MakeDate (Day t) 0)"
proof -
  have e: "MakeDay (YearFromTime t) (MonthFromTime t) (DateFromTime t) = Day t"
    using MakeDay_of_fields [of t 0] by simp
  have "MakeFullYear (YearFromTime t) = YearFromTime t"
    using assms(1) by (simp add: MakeFullYear_def)
  then show ?thesis
    by (simp add: startOfDay_def Date_of_fields_def getFullYear_def getMonth_def getDate_def
        Let_def e TimeClip_midnight [OF assms(2)])
qed

lemma month_start_le: "month_start y mn + 31 \<le> DaysInYear y"
  by (simp add: month_start_def Let_def DaysInYear_def)

lemma startOfDay_two_digit_year:
  assumes "0 \<le> YearFromTime t" and "YearFromTime t \<le> 99"
  obtains d where "startOfDay (Some t) = Some (MakeDate d 0)" and "d < DayFromYear 2000"
proof -
  let ?y = "1900 + YearFromTime t"
  let ?d = "MakeDay ?y (MonthFromTime t) (DateFromTime t)"
  note V = fields_valid(1-4) [of t]
  have D: "1 \<le> DateFromTime t" "DateFromTime t \<le> 31"
    using V(3,4) DaysInMonth_le [of "YearFromTime t" "MonthFromTime t"] by simp_all
  have d: "?d = DayFromYear ?y + (month_start ?y (MonthFromTime t) + DateFromTime t - 1)"
    using V(1,2) by (rule MakeDay_in_year)
  have lo: "DayFromYear ?y \<le> ?d"
    unfolding d using month_start_bounds(1) [of ?y "MonthFromTime t"] D(1) by simp
  have "?d < DayFromYear (?y + 1)"
    unfolding d DayFromYear_Suc using month_start_le [of ?y "MonthFromTime t"] D(2) by simp
  moreover have "DayFromYear (?y + 1) \<le> DayFromYear 2000"
    using assms(2) by (intro DayFromYear_mono) simp
  ultimately have hi: "?d < DayFromYear 2000" by simp
  have "DayFromYear 1900 \<le> DayFromYear ?y" using assms(1) by (intro DayFromYear_mono) simp
  then have a: "- 100000000 \<le> ?d" using lo by (simp add: DayFromYear_def)
  have b: "?d \<le> 100000000" using hi by (simp add: DayFromYear_def)
  have "startOfDay (Some t) = Some (MakeDate ?d 0)"
    using assms
    by (simp add: startOfDay_def Date_of_fields_def getFullYear_def getMonth_def getDate_def
        Let_def MakeFullYear_def TimeClip_day [OF a b])
  then show thesis using hi by (rule that)
qed

text \<open>
  C8. The classifier answers one of the four labels of \<open>StatusLabel\<close>. A quantity of zero or
  less gives \<open>Out of stock\<close> whatever the expiry text and the clock. Otherwise, on a clock
  between the years 2000 and 200000 and for every time value the parser can return, the
  answer follows the rule on calendar days: \<open>Expired\<close> when the expiry day is before
  today's day (the time of day of either plays no part), else \<open>Near expiry\<close> when it is on
  or before the day three calendar months on, else \<open>Sell allowed\<close>.
\<close>

theorem status_follows_precedence:
  "(qtyOnHand i \<le> 0 \<longrightarrow> statusLabel newDate now i = Out_of_stock)
   \<and> (TimeFromYear 2000 \<le> now \<and> now < TimeFromYear 200000
        \<and> \<bar>expiry_instant newDate (expiryDate i)\<bar> \<le> 8640000000000000
      \<longrightarrow> statusLabel newDate now i
          = status_by_rule (qtyOnHand i) (expiry_instant newDate (expiryDate i)) now)"
proof (intro conjI impI)
  assume "qtyOnHand i \<le> 0"
  then show "statusLabel newDate now i = Out_of_stock" by (simp add: statusLabel_def)
next
  let ?e = "expiry_instant newDate (expiryDate i)"
  assume r: "TimeFromYear 2000 \<le> now \<and> now < TimeFromYear 200000
        \<and> \<bar>?e\<bar> \<le> 8640000000000000"
  have n100: "TimeFromYear 100 \<le> now"
    using r TimeFromYear_mono [of 100 2000] by simp
  have T: "startOfDay (Some now) = Some (MakeDate (Day now) 0)"
    using n100 r by (intro startOfDay_in_range) simp_all
  have L: "addMonths (Some (MakeDate (Day now) 0)) 3 = Some (MakeDate (three_months_on now) 0)"
    using n100 r by (intro addMonths_today) simp_all
  have today: "DayFromYear 2000 \<le> Day now"
    using r by (simp add: TimeFromYear_le_iff)
  show "statusLabel newDate now i = status_by_rule (qtyOnHand i) ?e now"
  proof (cases "0 \<le> YearFromTime ?e \<and> YearFromTime ?e \<le> 99")
    case False
    have E: "parseDateOnly newDate (expiryDate i) = Some (MakeDate (Day ?e) 0)"
      unfolding parseDateOnly_eq using False r by (intro startOfDay_plain) simp_all
    show ?thesis
      unfolding statusLabel_def status_by_rule_def Let_def T E L
      by (simp add: getTime_def num_less_def num_le_def midnight_less_iff)
  next
    case True
    then obtain d where E: "parseDateOnly newDate (expiryDate i) = Some (MakeDate d 0)"
      and d: "d < DayFromYear 2000"
      unfolding parseDateOnly_eq by (elim conjE startOfDay_two_digit_year)
    have "?e < TimeFromYear (YearFromTime ?e + 1)" by (rule YearFromTime_range(2))
    then have "Day ?e < DayFromYear (YearFromTime ?e + 1)"
      by (simp add: TimeFromYear_le_iff not_le [symmetric])
    moreover have "DayFromYear (YearFromTime ?e + 1) \<le> DayFromYear 2000"
      using True by (intro DayFromYear_mono) simp
    ultimately have old: "Day ?e < Day now" using today by simp
    have "d < Day now" using d today by simp
    then show ?thesis
      unfolding statusLabel_def status_by_rule_def Let_def T E
      using old by (simp add: getTime_def num_less_def midnight_less_iff)
  qed
qed

text \<open>
  On 31 January 2024, 10:30, three months on is 1 May 2024, 91 days later: an item expiring
  on 1 May is near expiry, one expiring on 2 May may be sold.
\<close>

theorem status_follows_precedence_witness:
  "statusLabel Date_parse 1706697000000 (sample_item ''2024-05-01'' 5) = Near_expiry
   \<and> statusLabel Date_parse 1706697000000 (sample_item ''2024-05-02'' 5) = Sell_allowed
   \<and> three_months_on 1706697000000 = Day 1706697000000 + 91"
proof -
  have a: "TimeFromYear 2000 \<le> 1706697000000" "(1706697000000::int) < TimeFromYear 200000"
    by code_simp+
  have b: "\<bar>expiry_instant Date_parse (expiryDate (sample_item ''2024-05-01'' 5))\<bar>
           \<le> 8640000000000000"
    by code_simp
  have c: "\<bar>expiry_instant Date_parse (expiryDate (sample_item ''2024-05-02'' 5))\<bar>
           \<le> 8640000000000000"
    by code_simp
  have d: "status_by_rule (qtyOnHand (sample_item ''2024-05-01'' 5))
             (expiry_instant Date_parse (expiryDate (sample_item ''2024-05-01'' 5))) 1706697000000
           = Near_expiry"
    by code_simp
  have e: "status_by_rule (qtyOnHand (sample_item ''2024-05-02'' 5))
             (expiry_instant Date_parse (expiryDate (sample_item ''2024-05-02'' 5))) 1706697000000
           = Sell_allowed"
    by code_simp
  have f: "three_months_on 1706697000000 = Day 1706697000000 + 91" by code_simp
  from status_follows_precedence [of "sample_item ''2024-05-01'' 5" Date_parse 1706697000000]
    status_follows_precedence [of "sample_item ''2024-05-02'' 5" Date_parse 1706697000000]
    a b c d e f
  show ?thesis by simp
qed

lemma startOfDay_epoch: "startOfDay (Some 0) = Some 0"
  by code_simp

text \<open>
  C9. For an item in stock whose expiry text is blank, or is text the engine's parser
  turns into the invalid date, \<open>parseDateOnly\<close> answers the epoch and the classifier
  answers \<open>Expired\<close>, on any clock from 2 January 1970 on.
\<close>

theorem unparsable_expiry_is_expired:
  assumes "0 < qtyOnHand i"
    and "trim (expiryDate i) = [] \<or> newDate (trim (expiryDate i) @ ''T00:00:00'') = None"
    and "msPerDay \<le> now" and "now \<le> 8640000000000000"
  shows "parseDateOnly newDate (expiryDate i) = Some 0
       \<and> statusLabel newDate now i = Expired"
proof -
  have e: "expiry_instant newDate (expiryDate i) = 0"
    using assms(2) by (auto simp add: expiry_instant_def)
  have E: "parseDateOnly newDate (expiryDate i) = Some 0"
    by (simp add: parseDateOnly_eq e startOfDay_epoch)
  have "TimeFromYear 1970 \<le> now"
    using assms(3) by (simp add: TimeFromYear_def DayFromYear_def msPerDay_def)
  then have "1970 \<le> YearFromTime now" by (rule YearFromTime_ge)
  then have y: "100 \<le> YearFromTime now" by simp
  have d: "1 \<le> Day now"
    using assms(3) int_div_bounds [of msPerDay now] msPerDay_pos
    by (simp add: Day_def msPerDay_def)
  have "MakeDate (Day now) 0 \<le> now"
    using int_div_bounds [of msPerDay now] msPerDay_pos
    by (simp add: MakeDate_def Day_def mult.commute)
  moreover have p: "0 < MakeDate (Day now) 0" using d by (simp add: MakeDate_def msPerDay_def)
  ultimately have "TimeClip (MakeDate (Day now) 0) = Some (MakeDate (Day now) 0)"
    using assms(4) by (simp add: TimeClip_def)
  then have T: "startOfDay (Some now) = Some (MakeDate (Day now) 0)"
    by (simp add: startOfDay_eq [OF y])
  have "statusLabel newDate now i = Expired"
    unfolding statusLabel_def Let_def E T using assms(1) p
    by (simp add: getTime_def num_less_def)
  with E show ?thesis by simp
qed

theorem unparsable_expiry_is_expired_witness:
  "statusLabel Date_parse 1706697000000 (sample_item ''not a date'' 5) = Expired
   \<and> statusLabel Date_parse 1706697000000 (sample_item ''   '' 5) = Expired"
proof -
  have q: "0 < qtyOnHand (sample_item ''not a date'' 5)" "0 < qtyOnHand (sample_item ''   '' 5)"
    by (simp_all add: sample_item_def)
  have a: "trim (expiryDate (sample_item ''not a date'' 5)) = []
           \<or> Date_parse (trim (expiryDate (sample_item ''not a date'' 5)) @ ''T00:00:00'') = None"
    by code_simp
  have b: "trim (expiryDate (sample_item ''   '' 5)) = []
           \<or> Date_parse (trim (expiryDate (sample_item ''   '' 5)) @ ''T00:00:00'') = None"
    by code_simp
  have c: "msPerDay \<le> 1706697000000" "(1706697000000::int) \<le> 8640000000000000"
    by (simp_all add: msPerDay_def)
  from unparsable_expiry_is_expired [where newDate = Date_parse, OF q(1) a c]
    unparsable_expiry_is_expired [where newDate = Date_parse, OF q(2) b c]
  show ?thesis by simp
qed

end
